theory Spec2Isabelle
  imports Complex_Main
begin

section \<open>TapEventPlugin: a shallow embedding of \<open>src/browser/eventPlugins/TapEventPlugin.js\<close>\<close>

subsection \<open>The JavaScript values the plugin computes with\<close>

text \<open>
  The fields the plugin reads (\<open>timeStamp\<close>, the coordinates, the scroll offsets) hold a
  number, \<open>undefined\<close> or \<open>null\<close>. A number is a finite value, one of the two
  infinities or \<open>NaN\<close>. Finite values are written as reals; the doubles are among them,
  and every arithmetic operation rounds its result to a double. Negative zero is not told
  from zero. Strings and objects in these fields are outside the model.
\<close>

datatype jsval = Undefined | Null | Num real | Infinity | NegInfinity | NaN

subsubsection \<open>Rounding to a double\<close>

text \<open>Rounding a real to the nearest integer, a tie going to the even one.\<close>

definition rne :: "real \<Rightarrow> int" where
  "rne r =
     (let f = \<lfloor>r\<rfloor>
      in if r - of_int f < 1 / 2 then f
         else if 1 / 2 < r - of_int f then f + 1
         else if even f then f else f + 1)"

text \<open>
  The doubles between \<open>2 powi e\<close> and \<open>2 powi (e + 1)\<close> are the multiples of
  \<open>2 powi (e - 52)\<close> (53 significant bits); below \<open>2 powi (- 1022)\<close> the spacing stays
  \<open>2 powi (- 1074)\<close>. \<open>fl x\<close> is \<open>x\<close> rounded to nearest, ties to even, on that grid,
  the exponent not bounded above.
\<close>

definition binade :: "real \<Rightarrow> int" where
  "binade x = max \<lfloor>log 2 \<bar>x\<bar>\<rfloor> (- 1022)"

definition quantum :: "real \<Rightarrow> real" where
  "quantum x = 2 powi (binade x - 52)"

definition fl :: "real \<Rightarrow> real" where
  "fl x = (if x = 0 then 0 else of_int (rne (x / quantum x)) * quantum x)"

text \<open>The result of an arithmetic operation whose exact value is \<open>r\<close>: the rounded
  value, or an infinity when that is beyond the largest double.\<close>

definition roundResult :: "real \<Rightarrow> jsval" where
  "roundResult r =
     (if 2 ^ 1024 \<le> fl r then Infinity
      else if fl r \<le> - (2 ^ 1024) then NegInfinity
      else Num (fl r))"

subsubsection \<open>Operators\<close>

text \<open>JavaScript's \<open>ToNumber\<close> on these values.\<close>

fun ToNumber :: "jsval \<Rightarrow> jsval" where
  "ToNumber Undefined = NaN"
| "ToNumber Null = Num 0"
| "ToNumber v = v"

text \<open>The binary operators \<open>-\<close>, \<open>+\<close> and \<open><\<close> on numbers: \<open>NaN\<close> is contagious,
  as is the difference of equal infinities, and every comparison with \<open>NaN\<close> is false.\<close>

fun num_minus :: "jsval \<Rightarrow> jsval \<Rightarrow> jsval" where
  "num_minus (Num x) (Num y) = roundResult (x - y)"
| "num_minus (Num x) Infinity = NegInfinity"
| "num_minus (Num x) NegInfinity = Infinity"
| "num_minus Infinity (Num y) = Infinity"
| "num_minus Infinity NegInfinity = Infinity"
| "num_minus NegInfinity (Num y) = NegInfinity"
| "num_minus NegInfinity Infinity = NegInfinity"
| "num_minus _ _ = NaN"

fun num_plus :: "jsval \<Rightarrow> jsval \<Rightarrow> jsval" where
  "num_plus (Num x) (Num y) = roundResult (x + y)"
| "num_plus (Num x) Infinity = Infinity"
| "num_plus (Num x) NegInfinity = NegInfinity"
| "num_plus Infinity (Num y) = Infinity"
| "num_plus Infinity Infinity = Infinity"
| "num_plus NegInfinity (Num y) = NegInfinity"
| "num_plus NegInfinity NegInfinity = NegInfinity"
| "num_plus _ _ = NaN"

fun num_less :: "jsval \<Rightarrow> jsval \<Rightarrow> bool" where
  "num_less (Num x) (Num y) = (x < y)"
| "num_less (Num x) Infinity = True"
| "num_less NegInfinity (Num y) = True"
| "num_less NegInfinity Infinity = True"
| "num_less _ _ = False"

definition js_minus :: "jsval \<Rightarrow> jsval \<Rightarrow> jsval" where
  "js_minus a b = num_minus (ToNumber a) (ToNumber b)"

definition js_plus :: "jsval \<Rightarrow> jsval \<Rightarrow> jsval" where
  "js_plus a b = num_plus (ToNumber a) (ToNumber b)"

definition js_less :: "jsval \<Rightarrow> jsval \<Rightarrow> bool" where
  "js_less a b = num_less (ToNumber a) (ToNumber b)"

text \<open>\<open>Math.pow(v, 2)\<close> and \<open>Math.pow(v, 0.5)\<close>, the two uses in \<open>getDistance\<close>, as
  the engines compute them: the rounded square and the rounded square root. The square
  root of a negative number is \<open>NaN\<close>; \<open>Math.pow(-Infinity, 0.5)\<close> is \<open>Infinity\<close>.\<close>

fun num_pow_2 :: "jsval \<Rightarrow> jsval" where
  "num_pow_2 (Num x) = roundResult (x ^ 2)"
| "num_pow_2 Infinity = Infinity"
| "num_pow_2 NegInfinity = Infinity"
| "num_pow_2 _ = NaN"

fun num_pow_half :: "jsval \<Rightarrow> jsval" where
  "num_pow_half (Num x) = (if x < 0 then NaN else roundResult (sqrt x))"
| "num_pow_half Infinity = Infinity"
| "num_pow_half NegInfinity = Infinity"
| "num_pow_half _ = NaN"

definition Math_pow_2 :: "jsval \<Rightarrow> jsval" where
  "Math_pow_2 v = num_pow_2 (ToNumber v)"

definition Math_pow_half :: "jsval \<Rightarrow> jsval" where
  "Math_pow_half v = num_pow_half (ToNumber v)"

text \<open>A number of the code and the real that stands for it in a computation on the
  unbounded grid: the finite value itself, or any value beyond the largest double for an
  infinity.\<close>

definition stands_for :: "jsval \<Rightarrow> real \<Rightarrow> bool" where
  "stands_for v r =
     (v = Num r \<and> \<bar>r\<bar> < 2 ^ 1024 \<or> v = Infinity \<and> 2 ^ 1024 \<le> r \<or>
      v = NegInfinity \<and> r \<le> - (2 ^ 1024))"

text \<open>Truthiness, as tested by \<open>lastTouchEvent && ...\<close>: \<open>undefined\<close>, \<open>null\<close>,
  \<open>NaN\<close> and \<open>0\<close> are falsy.\<close>

fun truthy :: "jsval \<Rightarrow> bool" where
  "truthy (Num r) = (r \<noteq> 0)"
| "truthy Infinity = True"
| "truthy NegInfinity = True"
| "truthy Undefined = False"
| "truthy Null = False"
| "truthy NaN = False"

text \<open>The loose comparison \<open>v == null\<close>.\<close>

fun eq_null :: "jsval \<Rightarrow> bool" where
  "eq_null Undefined = True"
| "eq_null Null = True"
| "eq_null _ = False"

subsection \<open>Event types and their classification\<close>

text \<open>Modelled from the spec: \<open>EventConstants.topLevelTypes\<close> is not part of the sources;
  the spec lists the tags of a raw pointer event as mouse down/move/up and touch
  start/move/end/cancel.\<close>

datatype topLevelType =
  topMouseDown | topMouseMove | topMouseUp
  | topTouchCancel | topTouchEnd | topTouchStart | topTouchMove

text \<open>Modelled from the spec: \<open>EventPluginUtils.isStartish\<close> and \<open>isEndish\<close> are not
  part of the sources; the spec classifies press-down events as start-ish and release
  events (including a cancelled touch) as end-ish, movement being move-ish.\<close>

fun isStartish :: "topLevelType \<Rightarrow> bool" where
  "isStartish topMouseDown = True"
| "isStartish topTouchStart = True"
| "isStartish _ = False"

fun isEndish :: "topLevelType \<Rightarrow> bool" where
  "isEndish topMouseUp = True"
| "isEndish topTouchEnd = True"
| "isEndish topTouchCancel = True"
| "isEndish _ = False"

definition touchTypes :: "topLevelType list" where
  "touchTypes = [topTouchCancel, topTouchEnd, topTouchStart, topTouchMove]"

definition isTouch :: "topLevelType \<Rightarrow> bool" where
  "isTouch ty = (ty \<in> set touchTypes)"

subsection \<open>Configuration and data\<close>

definition tapMoveThreshold :: real where "tapMoveThreshold = 10"
definition ignoreMouseThreshold :: real where "ignoreMouseThreshold = 750"
definition tapDelay :: real where "tapDelay = 200"
definition tapMaxTime :: real where "tapMaxTime = 600"

record Coords =
  coord_x :: jsval
  coord_y :: jsval

text \<open>The module-level variables \<open>startCoords\<close>, \<open>startTime\<close>, \<open>lastTouchEvent\<close>,
  \<open>lastTapTime\<close> and \<open>trackingTouchEvent\<close>, passed explicitly.\<close>

record GestureState =
  startCoords :: Coords
  startTime :: jsval
  lastTouchEvent :: jsval
  lastTapTime :: jsval
  trackingTouchEvent :: bool

definition initialState :: GestureState where
  "initialState =
     \<lparr>startCoords = \<lparr>coord_x = Null, coord_y = Null\<rparr>, startTime = Num 0,
      lastTouchEvent = Null, lastTapTime = Num 0, trackingTouchEvent = False\<rparr>"

record Touch =
  touch_pageX :: jsval
  touch_pageY :: jsval

text \<open>
  A native event. \<open>singleTouch\<close> is what the external
  \<open>TouchEventUtils.extractSingleTouch\<close> returns for the event (\<open>None\<close>: a falsy result).
  \<open>pageX\<close> and \<open>pageY\<close> are \<open>None\<close> when the property is not \<open>in\<close> the event; a
  missing \<open>clientX\<close> or \<open>clientY\<close> reads as \<open>Undefined\<close>.
\<close>

record NativeEvent =
  timeStamp :: jsval
  singleTouch :: "Touch option"
  pageX :: "jsval option"
  pageY :: "jsval option"
  clientX :: jsval
  clientY :: jsval

text \<open>\<open>ViewportMetrics\<close> is external; the plugin reads the two properties named by
  \<open>Axis.x.envScroll\<close> and \<open>Axis.y.envScroll\<close>.\<close>

record ViewportMetrics =
  currentPageScrollLeft :: jsval
  currentPageScrollTop :: jsval

text \<open>The table \<open>Axis\<close>: each axis names a page property, a client property and a
  scroll property.\<close>

datatype Axis = Axis_x | Axis_y

fun touch_page :: "Axis \<Rightarrow> Touch \<Rightarrow> jsval" where
  "touch_page Axis_x t = touch_pageX t"
| "touch_page Axis_y t = touch_pageY t"

fun event_page :: "Axis \<Rightarrow> NativeEvent \<Rightarrow> jsval option" where
  "event_page Axis_x e = pageX e"
| "event_page Axis_y e = pageY e"

fun event_client :: "Axis \<Rightarrow> NativeEvent \<Rightarrow> jsval" where
  "event_client Axis_x e = clientX e"
| "event_client Axis_y e = clientY e"

fun envScroll :: "Axis \<Rightarrow> ViewportMetrics \<Rightarrow> jsval" where
  "envScroll Axis_x vm = currentPageScrollLeft vm"
| "envScroll Axis_y vm = currentPageScrollTop vm"

datatype EventType = touchTap

text \<open>Modelled from the spec: \<open>SyntheticUIEvent.getPooled\<close> is not part of the sources;
  the request handed to the emission adapter carries the kind of synthetic event, the
  target id and the source native event.\<close>

record SyntheticEvent =
  dispatchConfig :: EventType
  dispatchMarker :: string
  nativeEvent :: NativeEvent

definition getPooled :: "EventType \<Rightarrow> string \<Rightarrow> NativeEvent \<Rightarrow> SyntheticEvent" where
  "getPooled cfg targetID ev =
     \<lparr>dispatchConfig = cfg, dispatchMarker = targetID, nativeEvent = ev\<rparr>"

subsection \<open>Coordinate extraction and the proximity/timing gate\<close>

definition getAxisCoordOfEvent :: "ViewportMetrics \<Rightarrow> Axis \<Rightarrow> NativeEvent \<Rightarrow> jsval" where
  "getAxisCoordOfEvent vm axis ev =
     (case singleTouch ev of
        Some t \<Rightarrow> touch_page axis t
      | None \<Rightarrow>
          (case event_page axis ev of
             Some v \<Rightarrow> v
           | None \<Rightarrow> js_plus (event_client axis ev) (envScroll axis vm)))"

definition getDistance :: "ViewportMetrics \<Rightarrow> Coords \<Rightarrow> NativeEvent \<Rightarrow> jsval" where
  "getDistance vm coords ev =
     (let px = getAxisCoordOfEvent vm Axis_x ev;
          py = getAxisCoordOfEvent vm Axis_y ev
      in Math_pow_half
           (js_plus (Math_pow_2 (js_minus px (coord_x coords)))
                    (Math_pow_2 (js_minus py (coord_y coords)))))"

text \<open>
  The distance as the code computes it from four finite coordinates, written on the
  reals: each subtraction, each square, the sum and the square root rounded. Where a step
  overflows, the code holds an infinity and this value is beyond the largest double.
\<close>

definition computedDistance :: "real \<Rightarrow> real \<Rightarrow> real \<Rightarrow> real \<Rightarrow> real" where
  "computedDistance ex ey sx sy =
     fl (sqrt (fl (fl ((fl (ex - sx))\<^sup>2) + fl ((fl (ey - sy))\<^sup>2))))"

definition touchWithinBoundaries :: "ViewportMetrics \<Rightarrow> GestureState \<Rightarrow> NativeEvent \<Rightarrow> bool" where
  "touchWithinBoundaries vm s ev =
     (js_less (getDistance vm (startCoords s) ev) (Num tapMoveThreshold) \<and>
      js_less (js_minus (timeStamp ev) (startTime s)) (Num tapMaxTime))"

subsection \<open>\<open>extractEvents\<close>\<close>

text \<open>Lines 128-129: an event without a time stamp gets the current time written into
  it. \<open>now\<close> is the value of \<open>+new Date()\<close> at the call.\<close>

definition stampEvent :: "real \<Rightarrow> NativeEvent \<Rightarrow> NativeEvent" where
  "stampEvent now ev =
     (if eq_null (timeStamp ev) then ev\<lparr>timeStamp := Num now\<rparr> else ev)"

text \<open>Lines 131-139: device arbitration. The result says whether \<open>extractEvents\<close>
  returns \<open>null\<close> here, and gives the variables as this part leaves them.\<close>

definition arbitration :: "GestureState \<Rightarrow> topLevelType \<Rightarrow> NativeEvent \<Rightarrow> bool \<times> GestureState" where
  "arbitration s ty ev =
     (if isTouch ty then
        (let s1 = s\<lparr>lastTouchEvent := timeStamp ev\<rparr>
         in (js_less (js_minus (timeStamp ev) (lastTapTime s1)) (Num tapDelay), s1))
      else
        (truthy (lastTouchEvent s) \<and>
         js_less (js_minus (timeStamp ev) (lastTouchEvent s)) (Num ignoreMouseThreshold), s))"

text \<open>Lines 141-170: the start-ish, end-ish and move-ish branches. The call of the
  external \<open>EventPropagators.accumulateTwoPhaseDispatches\<close> touches none of the plugin's
  variables and is left out.\<close>

definition gestureStep ::
  "ViewportMetrics \<Rightarrow> GestureState \<Rightarrow> topLevelType \<Rightarrow> string \<Rightarrow> NativeEvent
     \<Rightarrow> SyntheticEvent option \<times> GestureState" where
  "gestureStep vm s ty targetID ev =
     (if isStartish ty then
        (None,
         s\<lparr>startCoords := \<lparr>coord_x = getAxisCoordOfEvent vm Axis_x ev,
                            coord_y = getAxisCoordOfEvent vm Axis_y ev\<rparr>,
           startTime := timeStamp ev,
           trackingTouchEvent := True\<rparr>)
      else if isEndish ty then
        (let hit = (trackingTouchEvent s \<and> touchWithinBoundaries vm s ev);
             event = (if hit then Some (getPooled touchTap targetID ev) else None);
             s1 = (if hit then s\<lparr>lastTapTime := timeStamp ev\<rparr> else s)
         in (event,
             s1\<lparr>startCoords := \<lparr>coord_x = Num 0, coord_y = Num 0\<rparr>,
                trackingTouchEvent := False\<rparr>))
      else
        (None,
         if trackingTouchEvent s \<and> \<not> touchWithinBoundaries vm s ev
         then s\<lparr>trackingTouchEvent := False\<rparr> else s))"

text \<open>The whole function. Besides the arguments of the source (\<open>topLevelTarget\<close> is a
  DOM node the function never looks at, here a number), it takes the viewport metrics,
  the current time and the variables of the module; it returns the accumulated event
  (\<open>None\<close> for \<open>null\<close>), the variables and the native event as the call leaves them.\<close>

type_synonym DOMEventTarget = nat

definition extractEvents ::
  "ViewportMetrics \<Rightarrow> real \<Rightarrow> GestureState \<Rightarrow> topLevelType \<Rightarrow> DOMEventTarget \<Rightarrow> string
     \<Rightarrow> NativeEvent \<Rightarrow> SyntheticEvent option \<times> GestureState \<times> NativeEvent" where
  "extractEvents vm now s ty topLevelTarget topLevelTargetID ev0 =
     (let ev = stampEvent now ev0;
          (rejected, s1) = arbitration s ty ev
      in if rejected then (None, s1, ev)
         else (let (event, s2) = gestureStep vm s1 ty topLevelTargetID ev
               in (event, s2, ev)))"

text \<open>An event (with its time stamp in place) is admitted when the arbitration does
  not make \<open>extractEvents\<close> return early.\<close>

definition admitted :: "GestureState \<Rightarrow> topLevelType \<Rightarrow> NativeEvent \<Rightarrow> bool" where
  "admitted s ty ev = (\<not> fst (arbitration s ty ev))"

text \<open>The coordinates the end-ish branch stores.\<close>

definition origin :: Coords where
  "origin = \<lparr>coord_x = Num 0, coord_y = Num 0\<rparr>"

subsection \<open>The call as the caller makes it\<close>

text \<open>
  The caller may pass any value for \<open>nativeEvent\<close>. \<open>None\<close> stands for a value that
  is not an object: reading \<open>timeStamp\<close> of \<open>null\<close> or \<open>undefined\<close> at line 128
  throws a \<open>TypeError\<close>, and so does, in strict mode, the assignment at line 129 to a
  property of a primitive value. Past these two lines the event is an object and the
  function reads and writes data properties only: the single touch is read only when it
  is truthy, \<open>startCoords\<close> is always an object. An event is taken to be a plain object
  whose properties can be read and written, and the external functions the plugin calls
  (\<open>extractSingleTouch\<close>, \<open>getPooled\<close>, \<open>accumulateTwoPhaseDispatches\<close>) are taken
  not to throw.
\<close>

datatype error = TypeError

definition callExtractEvents ::
  "ViewportMetrics \<Rightarrow> real \<Rightarrow> GestureState \<Rightarrow> topLevelType \<Rightarrow> DOMEventTarget \<Rightarrow> string
     \<Rightarrow> NativeEvent option \<Rightarrow> error + SyntheticEvent option \<times> GestureState \<times> NativeEvent" where
  "callExtractEvents vm now s ty topLevelTarget topLevelTargetID arg =
     (case arg of
        None \<Rightarrow> Inl TypeError
      | Some ev0 \<Rightarrow> Inr (extractEvents vm now s ty topLevelTarget topLevelTargetID ev0))"

subsection \<open>Streams of calls\<close>

text \<open>One call of \<open>extractEvents\<close>: its arguments, with the viewport metrics and the
  clock as they are when the call is made.\<close>

record Call =
  call_vm :: ViewportMetrics
  call_now :: real
  call_type :: topLevelType
  call_target :: DOMEventTarget
  call_targetID :: string
  call_event :: NativeEvent

definition step :: "GestureState \<Rightarrow> Call \<Rightarrow> SyntheticEvent option \<times> GestureState \<times> NativeEvent" where
  "step s c =
     extractEvents (call_vm c) (call_now c) s (call_type c) (call_target c)
       (call_targetID c) (call_event c)"

definition stepEvent :: "GestureState \<Rightarrow> Call \<Rightarrow> SyntheticEvent option" where
  "stepEvent s c = fst (step s c)"

definition stepState :: "GestureState \<Rightarrow> Call \<Rightarrow> GestureState" where
  "stepState s c = fst (snd (step s c))"

text \<open>The variables after a sequence of calls, and the taps the calls return, each
  with the call that produced it.\<close>

fun run :: "GestureState \<Rightarrow> Call list \<Rightarrow> GestureState" where
  "run s [] = s"
| "run s (c # cs) = run (stepState s c) cs"

fun emitted :: "GestureState \<Rightarrow> Call list \<Rightarrow> (Call \<times> SyntheticEvent) list" where
  "emitted s [] = []"
| "emitted s (c # cs) =
     (case stepEvent s c of
        None \<Rightarrow> emitted (stepState s c) cs
      | Some e \<Rightarrow> (c, e) # emitted (stepState s c) cs)"

text \<open>What a call is to the gesture state machine: rejected by the arbitration, or
  admitted as a start-ish event (with the coordinates and time stamp extracted from it),
  as an end-ish event or as a move-ish event.\<close>

datatype LogEntry = Rejected | AdmittedStart Coords jsval | AdmittedEnd | AdmittedMove

definition extractedCoords :: "ViewportMetrics \<Rightarrow> NativeEvent \<Rightarrow> Coords" where
  "extractedCoords vm ev =
     \<lparr>coord_x = getAxisCoordOfEvent vm Axis_x ev, coord_y = getAxisCoordOfEvent vm Axis_y ev\<rparr>"

definition logEntry :: "GestureState \<Rightarrow> Call \<Rightarrow> LogEntry" where
  "logEntry s c =
     (let ev = stampEvent (call_now c) (call_event c)
      in if \<not> admitted s (call_type c) ev then Rejected
         else if isStartish (call_type c)
           then AdmittedStart (extractedCoords (call_vm c) ev) (timeStamp ev)
         else if isEndish (call_type c) then AdmittedEnd
         else AdmittedMove)"

fun history :: "GestureState \<Rightarrow> Call list \<Rightarrow> LogEntry list" where
  "history s [] = []"
| "history s (c # cs) = logEntry s c # history (stepState s c) cs"

fun closesGesture :: "LogEntry \<Rightarrow> bool" where
  "closesGesture AdmittedEnd = True"
| "closesGesture _ = False"

fun opensGesture :: "LogEntry \<Rightarrow> bool" where
  "opensGesture (AdmittedStart c t) = True"
| "opensGesture _ = False"

subsection \<open>Example events\<close>

definition noScroll :: ViewportMetrics where
  "noScroll = \<lparr>currentPageScrollLeft = Num 0, currentPageScrollTop = Num 0\<rparr>"

text \<open>An event with page coordinates and no touch list, as a mouse event is.\<close>

definition pointerAt :: "jsval \<Rightarrow> real \<Rightarrow> real \<Rightarrow> NativeEvent" where
  "pointerAt t px py =
     \<lparr>timeStamp = t, singleTouch = None, pageX = Some (Num px), pageY = Some (Num py),
      clientX = Num px, clientY = Num py\<rparr>"

text \<open>An event whose coordinates are those of its single touch.\<close>

definition touchAt :: "jsval \<Rightarrow> real \<Rightarrow> real \<Rightarrow> NativeEvent" where
  "touchAt t px py =
     \<lparr>timeStamp = t, singleTouch = Some \<lparr>touch_pageX = Num px, touch_pageY = Num py\<rparr>,
      pageX = None, pageY = None, clientX = Undefined, clientY = Undefined\<rparr>"

text \<open>An event from which no coordinate can be read: no touch, no page property, no
  client property.\<close>

definition blankEvent :: "jsval \<Rightarrow> NativeEvent" where
  "blankEvent t =
     \<lparr>timeStamp = t, singleTouch = None, pageX = None, pageY = None,
      clientX = Undefined, clientY = Undefined\<rparr>"

text \<open>The state after a press at the origin at time 0.\<close>

definition trackingFromOrigin :: GestureState where
  "trackingFromOrigin =
     \<lparr>startCoords = origin, startTime = Num 0, lastTouchEvent = Null, lastTapTime = Num 0,
      trackingTouchEvent = True\<rparr>"

definition call :: "topLevelType \<Rightarrow> NativeEvent \<Rightarrow> Call" where
  "call ty ev =
     \<lparr>call_vm = noScroll, call_now = 5000, call_type = ty, call_target = 0,
      call_targetID = ''.0'', call_event = ev\<rparr>"

section \<open>Properties\<close>

subsection \<open>Rounding\<close>

lemma rne_of_int [simp]: "rne (of_int k) = k"
  by (simp add: rne_def)

lemma rne_cases: "rne r = \<lfloor>r\<rfloor> \<or> rne r = \<lfloor>r\<rfloor> + 1"
  by (simp add: rne_def Let_def)

lemma rne_near: "\<bar>r - of_int k\<bar> < 1 / 2 \<Longrightarrow> rne r = k"
proof -
  assume h: "\<bar>r - of_int k\<bar> < 1 / 2"
  show ?thesis
  proof (cases "of_int k \<le> r")
    case True
    then have "\<lfloor>r\<rfloor> = k" using h by (intro floor_unique) linarith+
    then show ?thesis using h True by (simp add: rne_def Let_def)
  next
    case False
    then have f: "\<lfloor>r\<rfloor> = k - 1" using h by (intro floor_unique) (simp, linarith)+
    have "1 / 2 < r - of_int (k - 1)" using h False by simp
    then show ?thesis unfolding rne_def Let_def f by simp
  qed
qed

lemma rne_ge: "of_int k \<le> r \<Longrightarrow> k \<le> rne r"
proof -
  assume "of_int k \<le> r"
  then have "k \<le> \<lfloor>r\<rfloor>" by (simp add: le_floor_iff)
  then show ?thesis using rne_cases [of r] by linarith
qed

lemma rne_le: "r \<le> of_int k \<Longrightarrow> rne r \<le> k"
proof (cases "r = of_int k")
  case True
  then show ?thesis by simp
next
  case False
  assume "r \<le> of_int k"
  with False have "r < of_int k" by simp
  then have "\<lfloor>r\<rfloor> < k" by (simp add: floor_less_iff)
  then show ?thesis using rne_cases [of r] by linarith
qed

lemma powr_powi: "(2::real) powr (of_int e) = 2 powi e"
  by (simp add: powr_real_of_int')

lemma floor_log2_eq:
  "0 < x \<Longrightarrow> 2 powi e \<le> x \<Longrightarrow> x < 2 powi (e + 1) \<Longrightarrow> \<lfloor>log 2 x\<rfloor> = e"
  using floor_log_eq_powr_iff [of x 2 e] powr_powi [of e] powr_powi [of "e + 1"]
  by simp

lemma floor_log2_bounds:
  "0 < x \<Longrightarrow> 2 powi \<lfloor>log 2 x\<rfloor> \<le> x \<and> x < 2 powi (\<lfloor>log 2 x\<rfloor> + 1)"
  using floor_log_eq_powr_iff [of x 2 "\<lfloor>log 2 x\<rfloor>"]
    powr_powi [of "\<lfloor>log 2 x\<rfloor>"] powr_powi [of "\<lfloor>log 2 x\<rfloor> + 1"]
  by simp


lemma two_powi_pos [simp]: "0 < (2::real) powi e"
  by (simp add: power_int_def)

lemma two_powi_mono: "a \<le> b \<Longrightarrow> (2::real) powi a \<le> 2 powi b"
  by (rule power_int_increasing) simp_all

lemma two_powi_less_cancel: "(2::real) powi a < 2 powi b \<Longrightarrow> a < b"
  using two_powi_mono [of b a] by (cases "a < b") simp_all

lemma two_powi_Suc: "(2::real) powi (e + 1) = 2 * 2 powi e"
  by (simp add: power_int_add)

lemma binade_eq:
  "2 powi e \<le> \<bar>x\<bar> \<Longrightarrow> \<bar>x\<bar> < 2 powi (e + 1) \<Longrightarrow> binade x = max e (- 1022)"
proof -
  assume a: "2 powi e \<le> \<bar>x\<bar>" and b: "\<bar>x\<bar> < 2 powi (e + 1)"
  have "0 < \<bar>x\<bar>" using a two_powi_pos [of e] by linarith
  from floor_log2_eq [OF this a b] show ?thesis by (simp add: binade_def)
qed

lemma quantum_pos [simp]: "0 < quantum x"
  by (simp add: quantum_def)

lemma fl_multiple: "x / quantum x = of_int k \<Longrightarrow> fl x = x"
proof -
  assume h: "x / quantum x = of_int k"
  have "x = of_int k * quantum x"
    using h quantum_pos [of x] by (simp add: field_simps)
  then show ?thesis using h by (simp add: fl_def)
qed

lemma fl_nearest:
  assumes "2 powi e \<le> \<bar>x\<bar>" and "\<bar>x\<bar> < 2 powi (e + 1)"
    and "q = 2 powi (max e (- 1022) - 52)"
    and "\<bar>x - of_int k * q\<bar> < q / 2"
  shows "fl x = of_int k * q"
proof -
  have x0: "x \<noteq> 0"
  proof
    assume "x = 0"
    with assms(1) have "(2::real) powi e \<le> 0" by simp
    with two_powi_pos [of e] show False by linarith
  qed
  have q: "quantum x = q" using binade_eq [OF assms(1,2)] assms(3) by (simp add: quantum_def)
  have qpos: "0 < q" using q quantum_pos [of x] by simp
  have "\<bar>x / q - of_int k\<bar> = \<bar>x - of_int k * q\<bar> / q"
    using qpos by (simp add: field_simps abs_divide) 
  also have "\<dots> < 1 / 2" using assms(4) qpos by (simp add: field_simps)
  finally have "rne (x / q) = k" by (rule rne_near)
  then show ?thesis using x0 q by (simp add: fl_def)
qed

lemma fl_of_int:
  assumes "\<bar>n\<bar> < 2 ^ 53"
  shows "fl (of_int n) = of_int n"
proof (cases "n = 0")
  case True
  then show ?thesis by (simp add: fl_def)
next
  case False
  let ?x = "of_int n :: real"
  let ?e = "\<lfloor>log 2 \<bar>?x\<bar>\<rfloor>"
  have pos: "0 < \<bar>?x\<bar>" using False by simp
  note b = floor_log2_bounds [OF pos]
  have "1 \<le> \<bar>n\<bar>" using False by simp
  then have "(of_int 1 :: real) \<le> of_int \<bar>n\<bar>" by (simp only: of_int_le_iff)
  then have one: "1 \<le> \<bar>?x\<bar>" by simp
  have "2 powi 0 < (2::real) powi (?e + 1)" using b one by simp
  then have e0: "0 \<le> ?e" using two_powi_less_cancel by fastforce
  have "\<bar>?x\<bar> < 2 powi 53"
  proof -
    have "\<bar>?x\<bar> = of_int \<bar>n\<bar>" by simp
    also have "\<dots> < of_int (2 ^ 53)" using assms by (simp only: of_int_less_iff)
    finally show ?thesis by simp
  qed
  then have "(2::real) powi ?e < 2 powi 53" using b by linarith
  then have e52: "?e \<le> 52" using two_powi_less_cancel by fastforce
  have bin: "binade ?x = ?e" using e0 by (simp add: binade_def)
  have "quantum ?x = 2 powi (?e - 52)" by (simp add: quantum_def bin)
  also have "\<dots> = 1 / 2 ^ nat (52 - ?e)"
    using e52 by (simp add: power_int_def field_simps)
  finally have q: "quantum ?x = 1 / 2 ^ nat (52 - ?e)" .
  have "?x / quantum ?x = of_int (n * 2 ^ nat (52 - ?e))"
    by (simp add: q)
  then show ?thesis by (rule fl_multiple)
qed


lemma scale_mono: "a \<le> b \<Longrightarrow> of_int a * quantum x \<le> of_int b * quantum x"
  using quantum_pos [of x] by (simp add: mult_right_mono)

lemma fl_eq: "x \<noteq> 0 \<Longrightarrow> fl x = of_int (rne (x / quantum x)) * quantum x"
  by (simp add: fl_def)

lemma powi_split: "(2::real) powi a = 2 powi (a - b) * 2 powi b"
  by (simp flip: power_int_add)

lemma fl_ge:
  assumes "2 powi e \<le> c" and "c < 2 powi (e + 1)" and "- 1022 \<le> e"
    and "c = of_int k * 2 powi (e - 52)" and "c \<le> x"
  shows "c \<le> fl x"
proof -
  have cpos: "0 < c" using assms(1) two_powi_pos [of e] by linarith
  then have xpos: "0 < x" using assms(5) by linarith
  let ?ex = "\<lfloor>log 2 x\<rfloor>"
  note b = floor_log2_bounds [OF xpos]
  have "(2::real) powi e < 2 powi (?ex + 1)" using assms(1,5) b by linarith
  then have le: "e \<le> ?ex" using two_powi_less_cancel by fastforce
  have bin: "binade x = ?ex" using xpos le assms(3) by (simp add: binade_def)
  let ?q = "quantum x"
  have q: "?q = 2 powi (?ex - 52)" by (simp add: quantum_def bin)
  show ?thesis
  proof (cases "?ex = e")
    case True
    then have "c = of_int k * ?q" using assms(4) q by simp
    then have "of_int k \<le> x / ?q" using assms(5) quantum_pos [of x] by (simp add: field_simps)
    then have "k \<le> rne (x / ?q)" by (rule rne_ge)
    then have "of_int k * ?q \<le> of_int (rne (x / ?q)) * ?q" by (rule scale_mono)
    then show ?thesis using \<open>c = of_int k * ?q\<close> xpos by (simp add: fl_eq)
  next
    case False
    with le have lt: "e + 1 \<le> ?ex" by simp
    have p: "(2::real) powi ?ex = 2 powi 52 * ?q"
      unfolding q using powi_split [of ?ex "?ex - 52"] by simp
    have "(2::real) powi 52 = of_int (2 ^ 52)" by simp
    moreover have "2 powi 52 \<le> x / ?q"
      using b p quantum_pos [of x] by (simp add: field_simps)
    ultimately have "of_int (2 ^ 52) \<le> x / ?q" by simp
    then have "2 ^ 52 \<le> rne (x / ?q)" by (rule rne_ge)
    then have "of_int (2 ^ 52) * ?q \<le> of_int (rne (x / ?q)) * ?q" by (rule scale_mono)
    then have "2 powi ?ex \<le> fl x" using p xpos by (simp add: fl_eq)
    moreover have "(2::real) powi (e + 1) \<le> 2 powi ?ex" using lt by (rule two_powi_mono)
    ultimately show ?thesis using assms(2) by linarith
  qed
qed

lemma fl_le:
  assumes "2 powi e \<le> c" and "c < 2 powi (e + 1)" and "- 1022 \<le> e"
    and "c = of_int k * 2 powi (e - 52)" and "x \<le> c"
  shows "fl x \<le> c"
proof -
  have cpos: "0 < c" using assms(1) two_powi_pos [of e] by linarith
  let ?q = "quantum x"
  consider "x = 0" | "x < 0" | "0 < x" by linarith
  then show ?thesis
  proof cases
    case 1
    then show ?thesis using cpos by (simp add: fl_def)
  next
    case 2
    then have "x / ?q \<le> of_int 0" using quantum_pos [of x] by (simp add: field_simps)
    then have "rne (x / ?q) \<le> 0" by (rule rne_le)
    then have "of_int (rne (x / ?q)) * ?q \<le> of_int 0 * ?q" by (rule scale_mono)
    then show ?thesis using 2 cpos by (simp add: fl_eq)
  next
    case 3
    let ?ex = "\<lfloor>log 2 x\<rfloor>"
    note b = floor_log2_bounds [OF 3]
    have "(2::real) powi ?ex < 2 powi (e + 1)" using assms(2,5) b by linarith
    then have le: "?ex \<le> e" using two_powi_less_cancel by fastforce
    let ?b = "binade x"
    have bin: "?b = max ?ex (- 1022)" using 3 by (simp add: binade_def)
    have ble: "?b \<le> e" using le assms(3) bin by simp
    have q: "?q = 2 powi (?b - 52)" by (simp add: quantum_def)
    show ?thesis
    proof (cases "?b = e")
      case True
      then have ck: "c = of_int k * ?q" using assms(4) q by simp
      then have "x / ?q \<le> of_int k" using assms(5) quantum_pos [of x] by (simp add: field_simps)
      then have "rne (x / ?q) \<le> k" by (rule rne_le)
      then have "of_int (rne (x / ?q)) * ?q \<le> of_int k * ?q" by (rule scale_mono)
      then show ?thesis using ck 3 by (simp add: fl_eq)
    next
      case False
      with ble have lt: "?b + 1 \<le> e" by simp
      have p: "(2::real) powi (?b + 1) = 2 powi 53 * ?q"
        unfolding q using powi_split [of "?b + 1" "?b - 52"] by simp
      have "?ex + 1 \<le> ?b + 1" using bin by simp
      then have "(2::real) powi (?ex + 1) \<le> 2 powi (?b + 1)" by (rule two_powi_mono)
      then have "x \<le> 2 powi 53 * ?q" using b p by linarith
      then have "x / ?q \<le> 2 powi 53" using quantum_pos [of x] by (simp add: field_simps)
      moreover have "(2::real) powi 53 = of_int (2 ^ 53)" by simp
      ultimately have "x / ?q \<le> of_int (2 ^ 53)" by simp
      then have "rne (x / ?q) \<le> 2 ^ 53" by (rule rne_le)
      then have "of_int (rne (x / ?q)) * ?q \<le> of_int (2 ^ 53) * ?q" by (rule scale_mono)
      then have "fl x \<le> 2 powi (?b + 1)" using p 3 by (simp add: fl_eq)
      moreover have "(2::real) powi (?b + 1) \<le> 2 powi e" using lt by (rule two_powi_mono)
      ultimately show ?thesis using assms(1) by linarith
    qed
  qed
qed

text \<open>Integers below \<open>2 ^ 53\<close> in magnitude are doubles, and results that are such
  integers are exact.\<close>

lemma roundResult_finite:
  assumes "fl x = y" and "\<bar>y\<bar> < 2 ^ 1024"
  shows "roundResult x = Num y"
proof -
  have "\<not> 2 ^ 1024 \<le> fl x" and "\<not> fl x \<le> - (2 ^ 1024)"
    unfolding assms(1) using assms(2) by linarith+
  then show ?thesis using assms(1) unfolding roundResult_def by (simp only: if_False)
qed

lemma fl_bound:
  assumes "\<bar>x\<bar> < 2 ^ 53" and "fl x = x"
  shows "roundResult x = Num x"
proof -
  have "(2::real) ^ 53 \<le> 2 ^ 1024" by (rule power_increasing) simp_all
  then have "\<bar>x\<bar> < 2 ^ 1024" using assms(1) by linarith
  with assms(2) show ?thesis by (rule roundResult_finite)
qed

lemma roundResult_of_int: "\<bar>n\<bar> < 2 ^ 53 \<Longrightarrow> roundResult (of_int n) = Num (of_int n)"
proof -
  assume h: "\<bar>n\<bar> < 2 ^ 53"
  have "\<bar>of_int n :: real\<bar> = of_int \<bar>n\<bar>" by simp
  also have "\<dots> < of_int (2 ^ 53)" using h by (simp only: of_int_less_iff)
  finally have "\<bar>of_int n :: real\<bar> < 2 ^ 53" by simp
  then show ?thesis using fl_of_int [OF h] by (rule fl_bound)
qed

lemma roundResult_numeral:
  "numeral k < (9007199254740992::int) \<Longrightarrow> roundResult (numeral k) = Num (numeral k)"
  using roundResult_of_int [of "numeral k"] by simp

lemma roundResult_neg_numeral:
  "numeral k < (9007199254740992::int) \<Longrightarrow> roundResult (- numeral k) = Num (- numeral k)"
  using roundResult_of_int [of "- numeral k"] by simp

lemma roundResult_0: "roundResult 0 = Num 0"
  using roundResult_of_int [of 0] by simp

lemma roundResult_1: "roundResult 1 = Num 1"
  using roundResult_of_int [of 1] by simp

lemma roundResult_cases:
  "roundResult r = Infinity \<and> 2 ^ 1024 \<le> fl r \<or>
   roundResult r = NegInfinity \<and> fl r \<le> - (2 ^ 1024) \<or>
   roundResult r = Num (fl r) \<and> - (2 ^ 1024) < fl r \<and> fl r < 2 ^ 1024"
  by (simp add: roundResult_def)

lemma roundResult_not_special [simp]:
  "roundResult r \<noteq> NaN" "roundResult r \<noteq> Undefined" "roundResult r \<noteq> Null"
  by (simp_all add: roundResult_def)

text \<open>A rounded result is below a finite bound exactly when the value rounded on the
  unbounded grid is.\<close>

lemma num_less_roundResult:
  assumes "- (2 ^ 1024) < b" and "b \<le> 2 ^ 1024"
  shows "num_less (roundResult r) (Num b) \<longleftrightarrow> fl r < b"
  using roundResult_cases [of r] assms by auto

lemma roundResult_nearest:
  assumes "2 powi e \<le> \<bar>x\<bar>" and "\<bar>x\<bar> < 2 powi (e + 1)" and "- 1022 \<le> e"
    and "y = of_int k * 2 powi (e - 52)" and "\<bar>x - y\<bar> < 2 powi (e - 53)"
    and "\<bar>y\<bar> < 2 ^ 1024"
  shows "roundResult x = Num y"
proof -
  let ?q = "(2::real) powi (max e (- 1022) - 52)"
  have m: "max e (- 1022) = e" using assms(3) by simp
  have "(2::real) powi (e - 52) = 2 powi (e - 53 + 1)" by simp
  also have "\<dots> = 2 * 2 powi (e - 53)" by (rule two_powi_Suc)
  finally have h: "2 powi (e - 53) = ?q / 2" unfolding m by simp
  have "\<bar>x - of_int k * ?q\<bar> < ?q / 2"
    using assms(4,5) unfolding h m by simp
  from fl_nearest [OF assms(1,2) refl this] have "fl x = y" using assms(4) m by simp
  then show ?thesis using assms(6) by (rule roundResult_finite)
qed

lemma fl_numeral: "numeral k < (9007199254740992::int) \<Longrightarrow> fl (numeral k) = numeral k"
  using fl_of_int [of "numeral k"] by simp

text \<open>Overflow: what stands for a number carries through the operations of
  \<open>getDistance\<close>.\<close>

lemma top_grid:
  "2 powi 1024 \<le> (2 ^ 1024 :: real)" "(2 ^ 1024 :: real) < 2 powi (1024 + 1)"
  "- 1022 \<le> (1024::int)" "(2 ^ 1024 :: real) = of_int (2 ^ 52) * 2 powi (1024 - 52)"
  by (simp_all add: power_int_def)

lemma fl_nonneg: "0 \<le> x \<Longrightarrow> 0 \<le> fl x"
proof (cases "x = 0")
  case True
  then show ?thesis by (simp add: fl_def)
next
  case False
  assume "0 \<le> x"
  then have "0 \<le> x / quantum x" using quantum_pos [of x] by (intro divide_nonneg_pos)
  then have "of_int 0 \<le> x / quantum x" by simp
  then have "0 \<le> rne (x / quantum x)" by (rule rne_ge)
  then have "of_int 0 * quantum x \<le> of_int (rne (x / quantum x)) * quantum x"
    by (rule scale_mono)
  then show ?thesis using False by (simp add: fl_eq)
qed

lemma fl_overflow: "2 ^ 1024 \<le> x \<Longrightarrow> 2 ^ 1024 \<le> fl x"
  by (rule fl_ge [OF top_grid])

lemma stands_for_roundResult: "stands_for (roundResult r) (fl r)"
  using roundResult_cases [of r] unfolding stands_for_def by auto

lemma stands_for_ToNumber: "stands_for v r \<Longrightarrow> ToNumber v = v"
  by (auto simp: stands_for_def)

lemma square_overflow: "2 ^ 1024 \<le> \<bar>x\<bar> \<Longrightarrow> (2 ^ 1024 :: real) \<le> x\<^sup>2"
proof -
  assume h: "2 ^ 1024 \<le> \<bar>x\<bar>"
  have one: "(1::real) \<le> 2 ^ 1024" by simp
  then have "1 \<le> \<bar>x\<bar>" using h by linarith
  then have "\<bar>x\<bar> * 1 \<le> \<bar>x\<bar> * \<bar>x\<bar>" by (intro mult_left_mono) simp_all
  then have "\<bar>x\<bar> \<le> x\<^sup>2" by (simp add: power2_eq_square flip: abs_mult)
  with h show ?thesis by linarith
qed

lemma stands_for_pow_2:
  assumes "stands_for a x"
  shows "stands_for (num_pow_2 a) (fl (x\<^sup>2))"
proof -
  consider "a = Num x" | "a = Infinity" "2 ^ 1024 \<le> x" | "a = NegInfinity" "x \<le> - (2 ^ 1024)"
    using assms by (auto simp: stands_for_def)
  then show ?thesis
  proof cases
    case 1
    then show ?thesis by (simp add: stands_for_roundResult)
  next
    case 2
    then have "2 ^ 1024 \<le> \<bar>x\<bar>" by linarith
    from fl_overflow [OF square_overflow [OF this]] 2 show ?thesis
      by (simp add: stands_for_def)
  next
    case 3
    then have "2 ^ 1024 \<le> \<bar>x\<bar>" by linarith
    from fl_overflow [OF square_overflow [OF this]] 3 show ?thesis
      by (simp add: stands_for_def)
  qed
qed

lemma stands_for_plus:
  assumes "stands_for a x" and "stands_for b y" and "0 \<le> x" and "0 \<le> y"
  shows "stands_for (num_plus a b) (fl (x + y))"
proof -
  have top: "(0::real) < 2 ^ 1024" by simp
  consider "a = Num x" | "a = Infinity" "2 ^ 1024 \<le> x"
    using assms(1,3) top by (auto simp: stands_for_def)
  then show ?thesis
  proof cases
    case 1
    consider "b = Num y" | "b = Infinity" "2 ^ 1024 \<le> y"
      using assms(2,4) top by (auto simp: stands_for_def)
    then show ?thesis
    proof cases
      case 1
      with \<open>a = Num x\<close> show ?thesis by (simp add: stands_for_roundResult)
    next
      case 2
      then have "2 ^ 1024 \<le> x + y" using assms(3) by linarith
      from fl_overflow [OF this] 2 \<open>a = Num x\<close> show ?thesis by (simp add: stands_for_def)
    qed
  next
    case 2
    then have s: "2 ^ 1024 \<le> x + y" using assms(4) by linarith
    consider "b = Num y" | "b = Infinity"
      using assms(2,4) top by (auto simp: stands_for_def)
    then show ?thesis
      using fl_overflow [OF s] 2 by cases (simp_all add: stands_for_def)
  qed
qed

subsection \<open>Evaluation rules\<close>

lemmas js_defs = js_minus_def js_plus_def js_less_def Math_pow_2_def Math_pow_half_def

lemmas threshold_defs = tapMoveThreshold_def ignoreMouseThreshold_def tapDelay_def tapMaxTime_def

lemma sqrt_squares: "sqrt 25 = 5" "sqrt 100 = 10" "sqrt 2500 = 50"
  using real_sqrt_abs [of 5] real_sqrt_abs [of 10] real_sqrt_abs [of 50] by simp_all

lemmas eval_defs =
  stepState_def stepEvent_def step_def extractEvents_def stampEvent_def arbitration_def
  gestureStep_def getPooled_def admitted_def logEntry_def extractedCoords_def
  touchWithinBoundaries_def getDistance_def getAxisCoordOfEvent_def isTouch_def touchTypes_def
  js_defs threshold_defs initialState_def origin_def call_def pointerAt_def touchAt_def
  blankEvent_def noScroll_def Let_def sqrt_squares
  roundResult_numeral roundResult_neg_numeral roundResult_0 roundResult_1
  trackingFromOrigin_def

subsection \<open>The gate\<close>

lemma gate_lastTouchEvent [simp]:
  "touchWithinBoundaries vm (s\<lparr>lastTouchEvent := v\<rparr>) ev = touchWithinBoundaries vm s ev"
  by (simp add: touchWithinBoundaries_def)

lemma stampEvent_coords [simp]:
  "getAxisCoordOfEvent vm axis (stampEvent now ev) = getAxisCoordOfEvent vm axis ev"
  by (cases axis) (simp_all add: getAxisCoordOfEvent_def stampEvent_def split: option.splits)

subsection \<open>One call, by parts\<close>

lemma arbitration_touch:
  "isTouch ty \<Longrightarrow> arbitration s ty ev =
     (js_less (js_minus (timeStamp ev) (lastTapTime s)) (Num tapDelay),
      s\<lparr>lastTouchEvent := timeStamp ev\<rparr>)"
  by (simp add: arbitration_def)

lemma arbitration_mouse:
  "\<not> isTouch ty \<Longrightarrow> arbitration s ty ev =
     (truthy (lastTouchEvent s) \<and>
      js_less (js_minus (timeStamp ev) (lastTouchEvent s)) (Num ignoreMouseThreshold), s)"
  by (simp add: arbitration_def)

lemma snd_arbitration:
  "snd (arbitration s ty ev) =
     s\<lparr>lastTouchEvent := (if isTouch ty then timeStamp ev else lastTouchEvent s)\<rparr>"
  by (simp add: arbitration_def)

lemma extractEvents_rejected:
  "\<not> admitted s ty (stampEvent now ev0) \<Longrightarrow>
   extractEvents vm now s ty tgt tid ev0 =
     (None, snd (arbitration s ty (stampEvent now ev0)), stampEvent now ev0)"
  by (cases "arbitration s ty (stampEvent now ev0)")
     (simp add: extractEvents_def admitted_def)

lemma extractEvents_admitted:
  "admitted s ty (stampEvent now ev0) \<Longrightarrow>
   extractEvents vm now s ty tgt tid ev0 =
     (fst (gestureStep vm (snd (arbitration s ty (stampEvent now ev0))) ty tid (stampEvent now ev0)),
      snd (gestureStep vm (snd (arbitration s ty (stampEvent now ev0))) ty tid (stampEvent now ev0)),
      stampEvent now ev0)"
  by (cases "arbitration s ty (stampEvent now ev0)")
     (simp add: extractEvents_def admitted_def Let_def split: prod.splits)

lemma endish_not_startish: "isEndish ty \<Longrightarrow> \<not> isStartish ty"
  by (cases ty) simp_all

subsection \<open>Tap on an end-ish event within bounds\<close>

text \<open>
  C1. When a gesture is being tracked and an admitted end-ish event passes the gate
  against the stored start, \<open>extractEvents\<close> returns one tap: a \<open>touchTap\<close> event with
  the call's target id and the incoming native event (its time stamp in place). The last
  tap time becomes the event's time stamp, the start coordinates become the origin and
  tracking stops; the start time is kept, and the last touch time is the one the
  arbitration left.
\<close>

theorem tap_on_end_within_bounds:
  assumes "trackingTouchEvent s" and "isEndish ty"
    and "admitted s ty (stampEvent now ev0)"
    and "touchWithinBoundaries vm s (stampEvent now ev0)"
  shows "extractEvents vm now s ty tgt tid ev0 =
    (Some \<lparr>dispatchConfig = touchTap, dispatchMarker = tid, nativeEvent = stampEvent now ev0\<rparr>,
     s\<lparr>startCoords := origin,
       lastTouchEvent := (if isTouch ty then timeStamp (stampEvent now ev0) else lastTouchEvent s),
       lastTapTime := timeStamp (stampEvent now ev0),
       trackingTouchEvent := False\<rparr>,
     stampEvent now ev0)"
  using assms endish_not_startish [OF assms(2)]
  by (simp add: extractEvents_admitted snd_arbitration gestureStep_def getPooled_def origin_def)

text \<open>The example of the specification: a press at (100,100) at time 0, a release at
  (103,104) at time 300.\<close>

theorem tap_on_end_within_bounds_witness:
  "trackingTouchEvent (run initialState [call topMouseDown (pointerAt (Num 0) 100 100)]) \<and>
   isEndish topMouseUp \<and>
   admitted (run initialState [call topMouseDown (pointerAt (Num 0) 100 100)]) topMouseUp
     (stampEvent 5000 (pointerAt (Num 300) 103 104)) \<and>
   touchWithinBoundaries noScroll (run initialState [call topMouseDown (pointerAt (Num 0) 100 100)])
     (stampEvent 5000 (pointerAt (Num 300) 103 104)) \<and>
   extractEvents noScroll 5000 (run initialState [call topMouseDown (pointerAt (Num 0) 100 100)])
       topMouseUp 0 ''.0'' (pointerAt (Num 300) 103 104) =
     (Some \<lparr>dispatchConfig = touchTap, dispatchMarker = ''.0'',
            nativeEvent = pointerAt (Num 300) 103 104\<rparr>,
      \<lparr>startCoords = origin, startTime = Num 0, lastTouchEvent = Null, lastTapTime = Num 300,
       trackingTouchEvent = False\<rparr>,
      pointerAt (Num 300) 103 104)"
proof -
  let ?s = "run initialState [call topMouseDown (pointerAt (Num 0) 100 100)]"
  let ?ev = "pointerAt (Num 300) 103 104"
  have s: "?s = \<lparr>startCoords = \<lparr>coord_x = Num 100, coord_y = Num 100\<rparr>, startTime = Num 0,
                 lastTouchEvent = Null, lastTapTime = Num 0, trackingTouchEvent = True\<rparr>"
    by (simp add: eval_defs)
  have h1: "trackingTouchEvent ?s" unfolding s by simp
  have h2: "isEndish topMouseUp" by simp
  have h3: "admitted ?s topMouseUp (stampEvent 5000 ?ev)"
    unfolding s by (simp add: eval_defs)
  have h4: "touchWithinBoundaries noScroll ?s (stampEvent 5000 ?ev)"
    unfolding s by (simp add: eval_defs)
  have ev: "stampEvent 5000 ?ev = ?ev" by (simp add: eval_defs)
  from tap_on_end_within_bounds [OF h1 h2 h3 h4, of 0 "''.0''"] h1 h2 h3 h4
  show ?thesis unfolding ev unfolding s by (simp add: eval_defs)
qed


subsection \<open>The gate near its bounds\<close>

lemma ten_grid:
  "2 powi 3 \<le> (10::real)" "(10::real) < 2 powi (3 + 1)" "- 1022 \<le> (3::int)"
  "(10::real) = of_int (10 * 2 ^ 49) * 2 powi (3 - 52)"
  by (simp_all add: power_int_def power_one_over)

lemma below_ten_grid:
  "2 powi 3 \<le> (319 / 32 :: real)" "(319 / 32 :: real) < 2 powi (3 + 1)"
  "(319 / 32 :: real) = of_int (319 * 2 ^ 44) * 2 powi (3 - 52)"
  by (simp_all add: power_int_def power_one_over)

lemma fl_sqrt_int_less_10:
  assumes "0 \<le> N"
  shows "fl (sqrt (of_int N)) < 10 \<longleftrightarrow> N < 100"
proof
  assume a: "fl (sqrt (of_int N)) < 10"
  show "N < 100"
  proof (rule ccontr)
    assume "\<not> N < 100"
    then have "(100::real) \<le> of_int N" by simp
    then have "sqrt 100 \<le> sqrt (of_int N)" by (simp only: real_sqrt_le_iff)
    then have "10 \<le> sqrt (of_int N)" by (simp add: sqrt_squares)
    from fl_ge [OF ten_grid this] a show False by simp
  qed
next
  assume "N < 100"
  then have "(of_int N :: real) \<le> 99" by simp
  also have "\<dots> \<le> (319 / 32)\<^sup>2" by (simp add: power2_eq_square)
  finally have "sqrt (of_int N) \<le> 319 / 32" by (intro real_le_lsqrt) simp_all
  from fl_le [OF below_ten_grid(1,2) ten_grid(3) below_ten_grid(3) this]
  show "fl (sqrt (of_int N)) < 10" by simp
qed

lemma sqrt_int_less_10: "sqrt (of_int N) < 10 \<longleftrightarrow> N < 100"
proof -
  have "sqrt (of_int N) < sqrt 100 \<longleftrightarrow> (of_int N :: real) < 100" by (rule real_sqrt_less_iff)
  then show ?thesis by (simp add: sqrt_squares)
qed

lemma int_square_bound: "\<bar>a\<bar> < 2 ^ 26 \<Longrightarrow> a\<^sup>2 < (2 ^ 52 :: int)"
proof -
  assume "\<bar>a\<bar> < 2 ^ 26"
  then have "\<bar>a\<bar>\<^sup>2 < (2 ^ 26)\<^sup>2" by (intro power_strict_mono) simp_all
  then show ?thesis by simp
qed

lemma ToNumber_roundResult [simp]: "ToNumber (roundResult r) = roundResult r"
  using roundResult_cases [of r] by auto

lemma js_less_roundResult:
  "- (2 ^ 1024) < b \<Longrightarrow> b \<le> 2 ^ 1024 \<Longrightarrow> js_less (roundResult r) (Num b) \<longleftrightarrow> fl r < b"
  by (simp add: js_less_def num_less_roundResult)

lemma threshold_range:
  "- (2 ^ 1024) < (10::real)" "(10::real) \<le> 2 ^ 1024"
  "- (2 ^ 1024) < (600::real)" "(600::real) \<le> 2 ^ 1024"
  "- (2 ^ 1024) < (200::real)" "(200::real) \<le> 2 ^ 1024"
  "- (2 ^ 1024) < (750::real)" "(750::real) \<le> 2 ^ 1024"
  by simp_all

lemma elapsed_less:
  assumes "ToNumber a = Num t" and "ToNumber b = Num t0"
    and "- (2 ^ 1024) < c" and "c \<le> 2 ^ 1024"
  shows "js_less (js_minus a b) (Num c) \<longleftrightarrow> fl (t - t0) < c"
  using assms by (simp add: js_minus_def js_less_roundResult)

lemma sqrt_overflow: "2 ^ 1024 \<le> x \<Longrightarrow> 10 \<le> sqrt x"
proof -
  assume "2 ^ 1024 \<le> x"
  moreover have "(100::real) \<le> 2 ^ 1024" by simp
  ultimately have "100 \<le> x" by linarith
  then have "sqrt 100 \<le> sqrt x" by (simp only: real_sqrt_le_iff)
  then show ?thesis by (simp add: sqrt_squares)
qed

lemma less_pow_half:
  assumes "stands_for a x" and "0 \<le> x"
  shows "js_less (Math_pow_half a) (Num 10) \<longleftrightarrow> fl (sqrt x) < 10"
proof -
  have top: "(0::real) < 2 ^ 1024" by simp
  consider "a = Num x" | "a = Infinity" "2 ^ 1024 \<le> x"
    using assms top by (auto simp: stands_for_def)
  then show ?thesis
  proof cases
    case 1
    then show ?thesis
      using assms(2) js_less_roundResult [OF threshold_range(1,2)]
      by (simp add: Math_pow_half_def not_less [symmetric])
  next
    case 2
    from fl_ge [OF ten_grid sqrt_overflow [OF 2(2)]] 2(1) show ?thesis
      by (simp add: Math_pow_half_def js_less_def)
  qed
qed

lemma getDistance_computed:
  assumes "ToNumber (getAxisCoordOfEvent vm Axis_x ev) = Num ex"
    and "ToNumber (getAxisCoordOfEvent vm Axis_y ev) = Num ey"
    and "ToNumber (coord_x coords) = Num sx"
    and "ToNumber (coord_y coords) = Num sy"
  shows "js_less (getDistance vm coords ev) (Num 10) \<longleftrightarrow> computedDistance ex ey sx sy < 10"
proof -
  let ?dx = "js_minus (getAxisCoordOfEvent vm Axis_x ev) (coord_x coords)"
  let ?dy = "js_minus (getAxisCoordOfEvent vm Axis_y ev) (coord_y coords)"
  have dx: "stands_for ?dx (fl (ex - sx))"
    by (simp add: js_minus_def assms(1,3) stands_for_roundResult)
  have dy: "stands_for ?dy (fl (ey - sy))"
    by (simp add: js_minus_def assms(2,4) stands_for_roundResult)
  have px: "stands_for (Math_pow_2 ?dx) (fl ((fl (ex - sx))\<^sup>2))"
    unfolding Math_pow_2_def stands_for_ToNumber [OF dx] by (rule stands_for_pow_2 [OF dx])
  have py: "stands_for (Math_pow_2 ?dy) (fl ((fl (ey - sy))\<^sup>2))"
    unfolding Math_pow_2_def stands_for_ToNumber [OF dy] by (rule stands_for_pow_2 [OF dy])
  have nx: "0 \<le> fl ((fl (ex - sx))\<^sup>2)" and ny: "0 \<le> fl ((fl (ey - sy))\<^sup>2)"
    by (simp_all add: fl_nonneg)
  have sum: "stands_for (js_plus (Math_pow_2 ?dx) (Math_pow_2 ?dy))
      (fl (fl ((fl (ex - sx))\<^sup>2) + fl ((fl (ey - sy))\<^sup>2)))"
    unfolding js_plus_def stands_for_ToNumber [OF px] stands_for_ToNumber [OF py]
    by (rule stands_for_plus [OF px py nx ny])
  have ns: "0 \<le> fl (fl ((fl (ex - sx))\<^sup>2) + fl ((fl (ey - sy))\<^sup>2))"
    using nx ny by (simp add: fl_nonneg)
  show ?thesis
    unfolding getDistance_def Let_def computedDistance_def
    by (rule less_pow_half [OF sum ns])
qed

lemma computedDistance_int:
  assumes "\<bar>ex\<bar> < 2 ^ 25" and "\<bar>ey\<bar> < 2 ^ 25" and "\<bar>sx\<bar> < 2 ^ 25" and "\<bar>sy\<bar> < 2 ^ 25"
  shows "computedDistance (of_int ex) (of_int ey) (of_int sx) (of_int sy) =
           fl (sqrt (of_int ((ex - sx)\<^sup>2 + (ey - sy)\<^sup>2)))"
proof -
  let ?dx = "ex - sx" and ?dy = "ey - sy"
  have dx: "\<bar>?dx\<bar> < 2 ^ 26" and dy: "\<bar>?dy\<bar> < 2 ^ 26" using assms by simp_all
  have dx53: "\<bar>?dx\<bar> < 2 ^ 53" and dy53: "\<bar>?dy\<bar> < 2 ^ 53" using dx dy by simp_all
  have mx: "fl (of_int ex - of_int sx) = of_int ?dx" using fl_of_int [OF dx53] by simp
  have my: "fl (of_int ey - of_int sy) = of_int ?dy" using fl_of_int [OF dy53] by simp
  have sx2: "?dx\<^sup>2 < 2 ^ 52" and sy2: "?dy\<^sup>2 < 2 ^ 52"
    using int_square_bound [OF dx] int_square_bound [OF dy] by simp_all
  have "\<bar>?dx\<^sup>2\<bar> < 2 ^ 53" using sx2 by simp
  from fl_of_int [OF this] have px: "fl ((of_int ?dx)\<^sup>2) = of_int (?dx\<^sup>2)" by simp
  have "\<bar>?dy\<^sup>2\<bar> < 2 ^ 53" using sy2 by simp
  from fl_of_int [OF this] have py: "fl ((of_int ?dy)\<^sup>2) = of_int (?dy\<^sup>2)" by simp
  have "\<bar>?dx\<^sup>2 + ?dy\<^sup>2\<bar> < 2 ^ 53" using sx2 sy2 by simp
  from fl_of_int [OF this]
  have sum: "fl (of_int (?dx\<^sup>2) + of_int (?dy\<^sup>2)) = of_int (?dx\<^sup>2 + ?dy\<^sup>2)" by simp
  show ?thesis unfolding computedDistance_def mx my px py sum ..
qed

text \<open>
  C2 (amended). The gate is true exactly when the distance as the code computes it, each
  subtraction, square, sum and square root rounded to a double, is less than
  \<open>tapMoveThreshold\<close> (10) and the rounded difference of the time stamps is less than
  \<open>tapMaxTime\<close> (600); a computed distance of exactly 10 and a computed difference of
  exactly 600 fail the gate. For coordinates that are integers below \<open>2 ^ 25\<close> in
  magnitude the computed comparison is the exact one, of the Euclidean distance with 10,
  and for time stamps that are integers below \<open>2 ^ 52\<close> in magnitude the rounded
  difference is the exact one.
\<close>

theorem touchWithinBoundaries_computed:
  assumes "ToNumber (getAxisCoordOfEvent vm Axis_x ev) = Num ex"
    and "ToNumber (getAxisCoordOfEvent vm Axis_y ev) = Num ey"
    and "ToNumber (coord_x (startCoords s)) = Num sx"
    and "ToNumber (coord_y (startCoords s)) = Num sy"
    and "ToNumber (timeStamp ev) = Num t" and "ToNumber (startTime s) = Num t0"
  shows "(touchWithinBoundaries vm s ev \<longleftrightarrow>
            computedDistance ex ey sx sy < 10 \<and> fl (t - t0) < 600) \<and>
         (computedDistance ex ey sx sy = 10 \<longrightarrow> \<not> touchWithinBoundaries vm s ev) \<and>
         (fl (t - t0) = 600 \<longrightarrow> \<not> touchWithinBoundaries vm s ev) \<and>
         (\<forall>exi eyi sxi syi.
            ex = of_int exi \<and> ey = of_int eyi \<and> sx = of_int sxi \<and> sy = of_int syi \<and>
            \<bar>exi\<bar> < 2 ^ 25 \<and> \<bar>eyi\<bar> < 2 ^ 25 \<and> \<bar>sxi\<bar> < 2 ^ 25 \<and> \<bar>syi\<bar> < 2 ^ 25 \<longrightarrow>
            (computedDistance ex ey sx sy < 10 \<longleftrightarrow> sqrt ((ex - sx)\<^sup>2 + (ey - sy)\<^sup>2) < 10) \<and>
            (sqrt ((ex - sx)\<^sup>2 + (ey - sy)\<^sup>2) = 10 \<longrightarrow> \<not> touchWithinBoundaries vm s ev)) \<and>
         (\<forall>ti t0i. t = of_int ti \<and> t0 = of_int t0i \<and> \<bar>ti\<bar> < 2 ^ 52 \<and> \<bar>t0i\<bar> < 2 ^ 52 \<longrightarrow>
            fl (t - t0) = t - t0)"
proof -
  have dist: "js_less (getDistance vm (startCoords s) ev) (Num tapMoveThreshold) \<longleftrightarrow>
      computedDistance ex ey sx sy < 10"
    unfolding tapMoveThreshold_def by (rule getDistance_computed [OF assms(1-4)])
  have time: "js_less (js_minus (timeStamp ev) (startTime s)) (Num tapMaxTime) \<longleftrightarrow>
      fl (t - t0) < 600"
    unfolding tapMaxTime_def by (rule elapsed_less [OF assms(5,6) threshold_range(3,4)])
  have gate: "touchWithinBoundaries vm s ev \<longleftrightarrow>
      computedDistance ex ey sx sy < 10 \<and> fl (t - t0) < 600"
    unfolding touchWithinBoundaries_def dist time ..
  have ints: "(computedDistance ex ey sx sy < 10 \<longleftrightarrow> sqrt ((ex - sx)\<^sup>2 + (ey - sy)\<^sup>2) < 10)"
    if "ex = of_int exi \<and> ey = of_int eyi \<and> sx = of_int sxi \<and> sy = of_int syi \<and>
        \<bar>exi\<bar> < 2 ^ 25 \<and> \<bar>eyi\<bar> < 2 ^ 25 \<and> \<bar>sxi\<bar> < 2 ^ 25 \<and> \<bar>syi\<bar> < 2 ^ 25"
    for exi eyi sxi syi
  proof -
    let ?N = "(exi - sxi)\<^sup>2 + (eyi - syi)\<^sup>2"
    have N: "(ex - sx)\<^sup>2 + (ey - sy)\<^sup>2 = (of_int ?N :: real)" using that by simp
    have "0 \<le> ?N" by simp
    from that have b: "\<bar>exi\<bar> < 2 ^ 25" "\<bar>eyi\<bar> < 2 ^ 25" "\<bar>sxi\<bar> < 2 ^ 25" "\<bar>syi\<bar> < 2 ^ 25"
      by blast+
    have "computedDistance ex ey sx sy = fl (sqrt (of_int ?N))"
      using computedDistance_int [OF b] that by simp
    then show ?thesis
      unfolding N using fl_sqrt_int_less_10 [OF \<open>0 \<le> ?N\<close>] sqrt_int_less_10 [of ?N] by simp
  qed
  have times: "fl (t - t0) = t - t0"
    if "t = of_int ti \<and> t0 = of_int t0i \<and> \<bar>ti\<bar> < 2 ^ 52 \<and> \<bar>t0i\<bar> < 2 ^ 52" for ti t0i
  proof -
    from that have "\<bar>ti\<bar> < 4503599627370496" and "\<bar>t0i\<bar> < 4503599627370496"
      by simp_all
    then have "\<bar>ti - t0i\<bar> < 9007199254740992" by linarith
    then have "\<bar>ti - t0i\<bar> < 2 ^ 53" by simp
    from fl_of_int [OF this] that show ?thesis by simp
  qed
  show ?thesis
  proof (intro conjI allI impI)
    show "touchWithinBoundaries vm s ev \<longleftrightarrow>
      computedDistance ex ey sx sy < 10 \<and> fl (t - t0) < 600" by (rule gate)
    show "\<not> touchWithinBoundaries vm s ev" if "computedDistance ex ey sx sy = 10"
      using that gate by simp
    show "\<not> touchWithinBoundaries vm s ev" if "fl (t - t0) = 600"
      using that gate by simp
  next
    fix exi eyi sxi syi
    assume h: "ex = of_int exi \<and> ey = of_int eyi \<and> sx = of_int sxi \<and> sy = of_int syi \<and>
        \<bar>exi\<bar> < 2 ^ 25 \<and> \<bar>eyi\<bar> < 2 ^ 25 \<and> \<bar>sxi\<bar> < 2 ^ 25 \<and> \<bar>syi\<bar> < 2 ^ 25"
    show "computedDistance ex ey sx sy < 10 \<longleftrightarrow> sqrt ((ex - sx)\<^sup>2 + (ey - sy)\<^sup>2) < 10"
      by (rule ints [OF h])
    show "\<not> touchWithinBoundaries vm s ev" if "sqrt ((ex - sx)\<^sup>2 + (ey - sy)\<^sup>2) = 10"
      using that gate ints [OF h] by simp
  next
    fix ti t0i
    assume "t = of_int ti \<and> t0 = of_int t0i \<and> \<bar>ti\<bar> < 2 ^ 52 \<and> \<bar>t0i\<bar> < 2 ^ 52"
    then show "fl (t - t0) = t - t0" by (rule times)
  qed
qed


theorem touchWithinBoundaries_computed_witness:
  "run initialState [call topMouseDown (pointerAt (Num 0) 0 0)] = trackingFromOrigin \<and>
   sqrt ((6 - 0)\<^sup>2 + (8 - 0)\<^sup>2) = (10::real) \<and>
   \<not> touchWithinBoundaries noScroll trackingFromOrigin (pointerAt (Num 300) 6 8) \<and>
   touchWithinBoundaries noScroll trackingFromOrigin (pointerAt (Num 599) 3 4) \<and>
   \<not> touchWithinBoundaries noScroll trackingFromOrigin (pointerAt (Num 600) 3 4)"
proof -
  let ?s = trackingFromOrigin
  have r: "run initialState [call topMouseDown (pointerAt (Num 0) 0 0)] = ?s"
    by (simp add: eval_defs)
  have sx: "ToNumber (coord_x (startCoords ?s)) = Num 0"
    and sy: "ToNumber (coord_y (startCoords ?s)) = Num 0"
    and t0: "ToNumber (startTime ?s) = Num 0"
    by (simp_all add: trackingFromOrigin_def origin_def)
  have ex: "ToNumber (getAxisCoordOfEvent noScroll Axis_x (pointerAt (Num t) px py)) = Num px"
    and ey: "ToNumber (getAxisCoordOfEvent noScroll Axis_y (pointerAt (Num t) px py)) = Num py"
    and tt: "ToNumber (timeStamp (pointerAt (Num t) px py)) = Num t" for t px py
    by (simp_all add: getAxisCoordOfEvent_def pointerAt_def)
  have d: "sqrt ((6 - 0)\<^sup>2 + (8 - 0)\<^sup>2) = (10::real)"
    by (simp add: sqrt_squares)
  have d': "sqrt ((3 - 0)\<^sup>2 + (4 - 0)\<^sup>2) < (10::real)"
    by (simp add: sqrt_squares)
  have i68: "(6::real) = of_int 6 \<and> (8::real) = of_int 8 \<and> (0::real) = of_int 0 \<and>
      (0::real) = of_int 0 \<and> \<bar>6::int\<bar> < 2 ^ 25 \<and> \<bar>8::int\<bar> < 2 ^ 25 \<and> \<bar>0::int\<bar> < 2 ^ 25 \<and>
      \<bar>0::int\<bar> < 2 ^ 25"
    by simp
  have i34: "(3::real) = of_int 3 \<and> (4::real) = of_int 4 \<and> (0::real) = of_int 0 \<and>
      (0::real) = of_int 0 \<and> \<bar>3::int\<bar> < 2 ^ 25 \<and> \<bar>4::int\<bar> < 2 ^ 25 \<and> \<bar>0::int\<bar> < 2 ^ 25 \<and>
      \<bar>0::int\<bar> < 2 ^ 25"
    by simp
  note w1 = touchWithinBoundaries_computed [OF ex ey sx sy tt t0, of 300 6 8]
  from w1 i68 d have a: "\<not> touchWithinBoundaries noScroll ?s (pointerAt (Num 300) 6 8)"
    by blast
  note w2 = touchWithinBoundaries_computed [OF ex ey sx sy tt t0, of 599 3 4]
  from w2 i34 d' have "computedDistance 3 4 0 0 < 10" by blast
  moreover have "fl (599 - 0) < 600" by (simp add: fl_numeral)
  ultimately have p: "touchWithinBoundaries noScroll ?s (pointerAt (Num 599) 3 4)"
    using w2 by blast
  note w3 = touchWithinBoundaries_computed [OF ex ey sx sy tt t0, of 600 3 4]
  have "fl (600 - 0) = 600" by (simp add: fl_numeral)
  with w3 have c: "\<not> touchWithinBoundaries noScroll ?s (pointerAt (Num 600) 3 4)"
    by blast
  from r d a p c show ?thesis by blast
qed

text \<open>With other coordinates the rounding shows: from a start at the origin, the event at
  \<open>(6, 8 - 1 / 2 ^ 50)\<close> is at a distance less than 10, the computed distance is 10 and
  the gate is false.\<close>

theorem gate_rounding_counterexample:
  "sqrt ((6 - 0)\<^sup>2 + (8 - 1 / 2 ^ 50 - 0)\<^sup>2) < (10::real) \<and>
   (300::real) - 0 < 600 \<and>
   fl (8 - 1 / 2 ^ 50) = 8 - 1 / 2 ^ 50 \<and>
   \<not> touchWithinBoundaries noScroll trackingFromOrigin (pointerAt (Num 300) 6 (8 - 1 / 2 ^ 50))"
proof -
  define y :: real where "y = 8 - 1 / 2 ^ 50"
  define z :: real where "z = 64 - 1 / 2 ^ 46"
  define w :: real where "w = 100 - 1 / 2 ^ 46"
  have r1: "roundResult y = Num y"
    by (rule roundResult_nearest [where e = 2 and k = "2 ^ 53 - 1"])
       (simp_all add: y_def power_int_def power_one_over)
  have fy: "fl y = y"
    using r1 roundResult_cases [of y] by auto
  have r2: "roundResult (y\<^sup>2) = Num z"
    by (rule roundResult_nearest [where e = 5 and k = "2 ^ 53 - 2"])
       (simp_all add: y_def z_def power_int_def power_one_over power2_eq_square)
  have r3: "roundResult (36 + z) = Num w"
    by (rule roundResult_nearest [where e = 6 and k = "100 * 2 ^ 46 - 1"])
       (simp_all add: z_def w_def power_int_def power_one_over)
  have w0: "\<not> w < 0" by (simp add: w_def)
  have lo: "10 - 1 / 2 ^ 50 < sqrt w"
    by (rule real_less_rsqrt) (simp add: w_def power2_eq_square)
  have hi: "sqrt w < 10"
    by (rule real_less_lsqrt) (simp_all add: w_def)
  have r4: "roundResult (sqrt w) = Num 10"
    using lo hi
    by (intro roundResult_nearest [where e = 3 and k = "10 * 2 ^ 49"])
       (simp_all add: power_int_def power_one_over)
  have exact: "sqrt ((6 - 0)\<^sup>2 + (y - 0)\<^sup>2) < 10"
    by (rule real_less_lsqrt) (simp_all add: y_def power2_eq_square)
  have main: "\<not> touchWithinBoundaries noScroll trackingFromOrigin (pointerAt (Num 300) 6 y)"
    using r1 r2 r3 r4 w0
    by (simp add: touchWithinBoundaries_def getDistance_def getAxisCoordOfEvent_def
          pointerAt_def trackingFromOrigin_def origin_def js_defs threshold_defs
          roundResult_numeral Let_def)
  have "(300::real) - 0 < 600" by simp
  with exact fy main show ?thesis unfolding y_def by blast
qed

subsection \<open>Device arbitration\<close>

text \<open>
  C3 (amended). Every touch-origin call leaves the event's time stamp in
  \<open>lastTouchEvent\<close>. If the difference of that time stamp and \<open>lastTapTime\<close>, as the
  code computes it (rounded to a double), is less than \<open>tapDelay\<close> (200), the call
  returns no event and changes nothing else: \<open>startCoords\<close>, \<open>startTime\<close>,
  \<open>trackingTouchEvent\<close> and \<open>lastTapTime\<close> are as before.
\<close>

theorem touch_debounce:
  assumes "isTouch ty"
  shows "lastTouchEvent (fst (snd (extractEvents vm now s ty tgt tid ev0)))
           = timeStamp (stampEvent now ev0) \<and>
         (\<forall>t l. ToNumber (timeStamp (stampEvent now ev0)) = Num t \<and>
                ToNumber (lastTapTime s) = Num l \<and> fl (t - l) < 200 \<longrightarrow>
            extractEvents vm now s ty tgt tid ev0 =
              (None, s\<lparr>lastTouchEvent := timeStamp (stampEvent now ev0)\<rparr>, stampEvent now ev0))"
proof (intro conjI allI impI)
  show "lastTouchEvent (fst (snd (extractEvents vm now s ty tgt tid ev0)))
           = timeStamp (stampEvent now ev0)"
    using assms
    by (cases "admitted s ty (stampEvent now ev0)")
       (simp_all add: extractEvents_admitted extractEvents_rejected snd_arbitration
          gestureStep_def Let_def)
next
  fix t l
  assume h: "ToNumber (timeStamp (stampEvent now ev0)) = Num t \<and>
             ToNumber (lastTapTime s) = Num l \<and> fl (t - l) < 200"
  then have "js_less (js_minus (timeStamp (stampEvent now ev0)) (lastTapTime s)) (Num tapDelay)"
    unfolding tapDelay_def using elapsed_less [OF _ _ threshold_range(5,6)] by blast
  then have "\<not> admitted s ty (stampEvent now ev0)"
    using assms by (simp add: admitted_def arbitration_touch)
  then show "extractEvents vm now s ty tgt tid ev0 =
      (None, s\<lparr>lastTouchEvent := timeStamp (stampEvent now ev0)\<rparr>, stampEvent now ev0)"
    using assms by (simp add: extractEvents_rejected snd_arbitration)
qed

theorem touch_debounce_witness:
  "isTouch topTouchStart \<and>
   run initialState [call topTouchStart (touchAt (Num 1000) 5 5),
                     call topTouchEnd (touchAt (Num 1010) 5 5)] =
     \<lparr>startCoords = origin, startTime = Num 1000, lastTouchEvent = Num 1010,
      lastTapTime = Num 1010, trackingTouchEvent = False\<rparr> \<and>
   fl (1100 - 1010) < 200 \<and>
   extractEvents noScroll 5000
       \<lparr>startCoords = origin, startTime = Num 1000, lastTouchEvent = Num 1010,
        lastTapTime = Num 1010, trackingTouchEvent = False\<rparr>
       topTouchStart 0 ''.0'' (touchAt (Num 1100) 7 7) =
     (None,
      \<lparr>startCoords = origin, startTime = Num 1000, lastTouchEvent = Num 1100,
       lastTapTime = Num 1010, trackingTouchEvent = False\<rparr>,
      touchAt (Num 1100) 7 7)"
proof -
  let ?s = "\<lparr>startCoords = origin, startTime = Num 1000, lastTouchEvent = Num 1010,
             lastTapTime = Num 1010, trackingTouchEvent = False\<rparr>"
  have h: "isTouch topTouchStart" by (simp add: isTouch_def touchTypes_def)
  have r: "run initialState [call topTouchStart (touchAt (Num 1000) 5 5),
                     call topTouchEnd (touchAt (Num 1010) 5 5)] = ?s"
    by (simp add: eval_defs)
  have ev: "stampEvent 5000 (touchAt (Num 1100) 7 7) = touchAt (Num 1100) 7 7"
    by (simp add: eval_defs)
  have f: "fl (1100 - 1010) < 200" by (simp add: fl_numeral)
  have pre: "ToNumber (timeStamp (stampEvent 5000 (touchAt (Num 1100) 7 7))) = Num 1100 \<and>
             ToNumber (lastTapTime ?s) = Num 1010 \<and> fl (1100 - 1010) < 200"
    using f by (simp add: eval_defs)
  from touch_debounce [OF h, of noScroll 5000 ?s 0 "''.0''" "touchAt (Num 1100) 7 7"] pre
  have "extractEvents noScroll 5000 ?s topTouchStart 0 ''.0'' (touchAt (Num 1100) 7 7) =
      (None, ?s\<lparr>lastTouchEvent := timeStamp (stampEvent 5000 (touchAt (Num 1100) 7 7))\<rparr>,
       stampEvent 5000 (touchAt (Num 1100) 7 7))"
    by blast
  then show ?thesis using h r f unfolding ev by (simp add: touchAt_def)
qed

text \<open>The exact difference can be below 200 while the computed one is not: after a tap
  at time \<open>1 / 2 ^ 70\<close>, a touch start at time 200 is admitted and starts tracking.\<close>
theorem touch_debounce_counterexample:
  "run initialState [call topMouseDown (pointerAt (Num (1 / 2 ^ 70)) 5 5),
                     call topMouseUp (pointerAt (Num (1 / 2 ^ 70)) 5 5)] =
     \<lparr>startCoords = origin, startTime = Num (1 / 2 ^ 70), lastTouchEvent = Null,
      lastTapTime = Num (1 / 2 ^ 70), trackingTouchEvent = False\<rparr> \<and>
   isTouch topTouchStart \<and>
   fl (1 / 2 ^ 70) = 1 / 2 ^ 70 \<and>
   (200::real) - 1 / 2 ^ 70 < 200 \<and>
   extractEvents noScroll 5000
       \<lparr>startCoords = origin, startTime = Num (1 / 2 ^ 70), lastTouchEvent = Null,
        lastTapTime = Num (1 / 2 ^ 70), trackingTouchEvent = False\<rparr>
       topTouchStart 0 ''.0'' (touchAt (Num 200) 5 5) =
     (None,
      \<lparr>startCoords = \<lparr>coord_x = Num 5, coord_y = Num 5\<rparr>, startTime = Num 200,
       lastTouchEvent = Num 200, lastTapTime = Num (1 / 2 ^ 70), trackingTouchEvent = True\<rparr>,
      touchAt (Num 200) 5 5)"
proof -
  define u :: real where "u = 1 / 2 ^ 70"
  have upos: "u \<noteq> 0" by (simp add: u_def)
  have "roundResult u = Num u"
    by (rule roundResult_nearest [where e = "- 70" and k = "2 ^ 52"])
       (simp_all add: u_def power_int_def power_one_over)
  then have fu: "fl u = u"
    using roundResult_cases [of u] by auto
  have r1: "roundResult (200 - u) = Num 200"
    by (rule roundResult_nearest [where e = 7 and k = "200 * 2 ^ 45"])
       (simp_all add: u_def power_int_def power_one_over)
  have run: "run initialState [call topMouseDown (pointerAt (Num u) 5 5),
                     call topMouseUp (pointerAt (Num u) 5 5)] =
     \<lparr>startCoords = origin, startTime = Num u, lastTouchEvent = Null,
      lastTapTime = Num u, trackingTouchEvent = False\<rparr>"
    using upos by (simp add: eval_defs)
  have step: "extractEvents noScroll 5000
       \<lparr>startCoords = origin, startTime = Num u, lastTouchEvent = Null,
        lastTapTime = Num u, trackingTouchEvent = False\<rparr>
       topTouchStart 0 ''.0'' (touchAt (Num 200) 5 5) =
     (None,
      \<lparr>startCoords = \<lparr>coord_x = Num 5, coord_y = Num 5\<rparr>, startTime = Num 200,
       lastTouchEvent = Num 200, lastTapTime = Num u, trackingTouchEvent = True\<rparr>,
      touchAt (Num 200) 5 5)"
    using r1 by (simp add: eval_defs)
  have t: "isTouch topTouchStart" by (simp add: isTouch_def touchTypes_def)
  have "(200::real) - u < 200" by (simp add: u_def)
  with run step t fu show ?thesis unfolding u_def by blast
qed

text \<open>A mouse-origin call is turned away, with no variable changed, when
  \<open>lastTouchEvent\<close> is truthy and the computed difference of the event's time stamp and
  \<open>lastTouchEvent\<close> is less than \<open>ignoreMouseThreshold\<close> (750).\<close>

lemma mouse_suppressed:
  assumes "\<not> isTouch ty" and "truthy (lastTouchEvent s)"
    and "ToNumber (timeStamp (stampEvent now ev0)) = Num t"
    and "ToNumber (lastTouchEvent s) = Num l" and "fl (t - l) < 750"
  shows "extractEvents vm now s ty tgt tid ev0 = (None, s, stampEvent now ev0)"
proof -
  have "js_less (js_minus (timeStamp (stampEvent now ev0)) (lastTouchEvent s))
          (Num ignoreMouseThreshold)"
    unfolding ignoreMouseThreshold_def
    using elapsed_less [OF assms(3,4) threshold_range(7,8)] assms(5) by simp
  then have "\<not> admitted s ty (stampEvent now ev0)"
    using assms(1,2) by (simp add: admitted_def arbitration_mouse)
  then show ?thesis
    using assms(1) by (simp add: extractEvents_rejected snd_arbitration)
qed

text \<open>
  C4. A mouse-origin event less than \<open>ignoreMouseThreshold\<close> after the last touch is to
  be turned away with the variables unchanged. The test \<open>lastTouchEvent && ...\<close> takes a
  touch with time stamp 0 for no touch at all: after a touch start at time 0, a mouse down
  at time 100 is admitted and starts tracking, and the mouse up at time 150 emits a tap.
\<close>

theorem mouse_after_touch_at_zero:
  "run initialState [call topTouchStart (touchAt (Num 0) 5 5)] =
     initialState\<lparr>lastTouchEvent := Num 0\<rparr> \<and>
   \<not> isTouch topMouseDown \<and> (100::real) - 0 < 750 \<and>
   extractEvents noScroll 5000 (initialState\<lparr>lastTouchEvent := Num 0\<rparr>)
       topMouseDown 0 ''.0'' (pointerAt (Num 100) 5 5) =
     (None,
      \<lparr>startCoords = \<lparr>coord_x = Num 5, coord_y = Num 5\<rparr>, startTime = Num 100,
       lastTouchEvent = Num 0, lastTapTime = Num 0, trackingTouchEvent = True\<rparr>,
      pointerAt (Num 100) 5 5) \<and>
   map (timeStamp \<circ> nativeEvent \<circ> snd)
     (emitted initialState
        [call topTouchStart (touchAt (Num 0) 5 5),
         call topMouseDown (pointerAt (Num 100) 5 5),
         call topMouseUp (pointerAt (Num 150) 5 5)]) = [Num 150]"
  by (simp add: eval_defs)

subsection \<open>The time stamp written into the event\<close>

text \<open>
  C10. \<open>extractEvents\<close> changes the event it is given: when the event's \<open>timeStamp\<close> is
  \<open>null\<close> or \<open>undefined\<close> the current time is written into that field, and the rest of
  the call runs as it would on the event with that time stamp; when a time stamp is there
  the event is left as it was.
\<close>

theorem timeStamp_written_in_place:
  "(eq_null (timeStamp ev0) \<longrightarrow>
      snd (snd (extractEvents vm now s ty tgt tid ev0)) = ev0\<lparr>timeStamp := Num now\<rparr> \<and>
      extractEvents vm now s ty tgt tid ev0
        = extractEvents vm now s ty tgt tid (ev0\<lparr>timeStamp := Num now\<rparr>)) \<and>
   (\<not> eq_null (timeStamp ev0) \<longrightarrow>
      snd (snd (extractEvents vm now s ty tgt tid ev0)) = ev0)"
  by (cases "admitted s ty (stampEvent now ev0)")
     (simp_all add: extractEvents_def stampEvent_def Let_def split: prod.splits)

theorem timeStamp_written_in_place_witness:
  "eq_null (timeStamp (blankEvent Undefined)) \<and>
   snd (snd (extractEvents noScroll 5000 initialState topMouseMove 0 ''.0'' (blankEvent Undefined)))
     = blankEvent (Num 5000) \<and>
   \<not> eq_null (timeStamp (blankEvent (Num 0))) \<and>
   snd (snd (extractEvents noScroll 5000 initialState topMouseMove 0 ''.0'' (blankEvent (Num 0))))
     = blankEvent (Num 0)"
proof -
  have h1: "eq_null (timeStamp (blankEvent Undefined))"
    and h2: "\<not> eq_null (timeStamp (blankEvent (Num 0)))"
    by (simp_all add: blankEvent_def)
  have u: "(blankEvent Undefined)\<lparr>timeStamp := Num 5000\<rparr> = blankEvent (Num 5000)"
    by (simp add: blankEvent_def)
  from timeStamp_written_in_place
         [of "blankEvent Undefined" noScroll 5000 initialState topMouseMove 0 "''.0''"] h1
  have a: "snd (snd (extractEvents noScroll 5000 initialState topMouseMove 0 ''.0''
                       (blankEvent Undefined))) = blankEvent (Num 5000)"
    unfolding u by blast
  from timeStamp_written_in_place
         [of "blankEvent (Num 0)" noScroll 5000 initialState topMouseMove 0 "''.0''"] h2
  have b: "snd (snd (extractEvents noScroll 5000 initialState topMouseMove 0 ''.0''
                       (blankEvent (Num 0)))) = blankEvent (Num 0)"
    by blast
  from h1 a h2 b show ?thesis by blast
qed

subsection \<open>Move-ish events\<close>

text \<open>
  C6 (amended). An admitted move-ish event returns no event. Tracking goes on exactly when
  it was on and the event passes the gate; \<open>startCoords\<close>, \<open>startTime\<close> and
  \<open>lastTapTime\<close> are unchanged. \<open>lastTouchEvent\<close> is unchanged for a mouse-origin event
  and is the event's time stamp for a touch-origin event, so a touch move is not a no-op
  even when idle or within bounds.
\<close>

theorem moveish_step:
  assumes "\<not> isStartish ty" and "\<not> isEndish ty"
    and "admitted s ty (stampEvent now ev0)"
  shows "extractEvents vm now s ty tgt tid ev0 =
    (None,
     s\<lparr>lastTouchEvent := (if isTouch ty then timeStamp (stampEvent now ev0) else lastTouchEvent s),
       trackingTouchEvent :=
         (trackingTouchEvent s \<and> touchWithinBoundaries vm s (stampEvent now ev0))\<rparr>,
     stampEvent now ev0)"
  using assms
  by (auto simp add: extractEvents_admitted snd_arbitration gestureStep_def)

theorem moveish_step_witness:
  "\<not> isStartish topMouseMove \<and> \<not> isEndish topMouseMove \<and>
   admitted (run initialState [call topMouseDown (pointerAt (Num 0) 0 0)]) topMouseMove
     (stampEvent 5000 (pointerAt (Num 50) 50 0)) \<and>
   run initialState [call topMouseDown (pointerAt (Num 0) 0 0)] =
     \<lparr>startCoords = origin, startTime = Num 0, lastTouchEvent = Null, lastTapTime = Num 0,
      trackingTouchEvent = True\<rparr> \<and>
   extractEvents noScroll 5000 (run initialState [call topMouseDown (pointerAt (Num 0) 0 0)])
       topMouseMove 0 ''.0'' (pointerAt (Num 50) 50 0) =
     (None,
      \<lparr>startCoords = origin, startTime = Num 0, lastTouchEvent = Null, lastTapTime = Num 0,
       trackingTouchEvent = False\<rparr>,
      pointerAt (Num 50) 50 0)"
proof -
  let ?s = "run initialState [call topMouseDown (pointerAt (Num 0) 0 0)]"
  have s: "?s = \<lparr>startCoords = origin, startTime = Num 0, lastTouchEvent = Null,
                 lastTapTime = Num 0, trackingTouchEvent = True\<rparr>"
    by (simp add: eval_defs)
  have h1: "\<not> isStartish topMouseMove" and h2: "\<not> isEndish topMouseMove" by simp_all
  have h3: "admitted ?s topMouseMove (stampEvent 5000 (pointerAt (Num 50) 50 0))"
    unfolding s by (simp add: eval_defs)
  from moveish_step [OF h1 h2 h3, of noScroll 0 "''.0''"] h1 h2 h3 s
  show ?thesis unfolding s by (simp add: eval_defs)
qed

text \<open>From the initial (idle) state an admitted touch move changes \<open>lastTouchEvent\<close>.\<close>

theorem moveish_touch_counterexample:
  "\<not> isStartish topTouchMove \<and> \<not> isEndish topTouchMove \<and>
   admitted initialState topTouchMove (stampEvent 5000 (touchAt (Num 1000) 5 5)) \<and>
   \<not> trackingTouchEvent initialState \<and>
   fst (snd (extractEvents noScroll 5000 initialState topTouchMove 0 ''.0'' (touchAt (Num 1000) 5 5)))
     = initialState\<lparr>lastTouchEvent := Num 1000\<rparr> \<and>
   initialState\<lparr>lastTouchEvent := Num 1000\<rparr> \<noteq> initialState"
  by (simp add: eval_defs)

subsection \<open>End-ish events while idle\<close>

text \<open>
  C7 (amended). An admitted end-ish event received while not tracking returns no event and
  leaves the machine idle, with \<open>startTime\<close> and \<open>lastTapTime\<close> unchanged;
  \<open>startCoords\<close> is set to the origin whatever it held, and a touch-origin event records
  its time stamp in \<open>lastTouchEvent\<close>. A second admitted end-ish event right after it
  changes nothing but, for a touch-origin event, \<open>lastTouchEvent\<close>.
\<close>

theorem endish_idle_step:
  assumes "\<not> trackingTouchEvent s" and "isEndish ty"
    and "admitted s ty (stampEvent now ev0)"
  shows "extractEvents vm now s ty tgt tid ev0 =
    (None,
     s\<lparr>startCoords := origin,
       lastTouchEvent := (if isTouch ty then timeStamp (stampEvent now ev0) else lastTouchEvent s)\<rparr>,
     stampEvent now ev0) \<and>
   (\<forall>ty' ev1 vm' now' tgt' tid'.
      isEndish ty' \<and>
      admitted (fst (snd (extractEvents vm now s ty tgt tid ev0))) ty' (stampEvent now' ev1) \<longrightarrow>
      extractEvents vm' now' (fst (snd (extractEvents vm now s ty tgt tid ev0))) ty' tgt' tid' ev1 =
        (None,
         (fst (snd (extractEvents vm now s ty tgt tid ev0)))
           \<lparr>lastTouchEvent := (if isTouch ty' then timeStamp (stampEvent now' ev1)
               else lastTouchEvent (fst (snd (extractEvents vm now s ty tgt tid ev0))))\<rparr>,
         stampEvent now' ev1))"
proof -
  have step: "extractEvents vm' now' s' ty' tgt' tid' ev1 =
      (None,
       s'\<lparr>startCoords := origin,
          lastTouchEvent := (if isTouch ty' then timeStamp (stampEvent now' ev1) else lastTouchEvent s')\<rparr>,
       stampEvent now' ev1)"
    if "\<not> trackingTouchEvent s'" "isEndish ty'" "admitted s' ty' (stampEvent now' ev1)"
    for vm' now' s' ty' tgt' tid' ev1
    using that endish_not_startish [OF that(2)]
    by (simp add: extractEvents_admitted snd_arbitration gestureStep_def origin_def)
  have first: "extractEvents vm now s ty tgt tid ev0 =
    (None,
     s\<lparr>startCoords := origin,
       lastTouchEvent := (if isTouch ty then timeStamp (stampEvent now ev0) else lastTouchEvent s)\<rparr>,
     stampEvent now ev0)"
    by (rule step [OF assms])
  show ?thesis
  proof (intro conjI allI impI)
    show "extractEvents vm now s ty tgt tid ev0 =
      (None,
       s\<lparr>startCoords := origin,
         lastTouchEvent := (if isTouch ty then timeStamp (stampEvent now ev0) else lastTouchEvent s)\<rparr>,
       stampEvent now ev0)" by (rule first)
  next
    fix ty' ev1 vm' now' tgt' tid'
    let ?s' = "fst (snd (extractEvents vm now s ty tgt tid ev0))"
    assume h: "isEndish ty' \<and> admitted ?s' ty' (stampEvent now' ev1)"
    have idle: "\<not> trackingTouchEvent ?s'" and o: "startCoords ?s' = origin"
      using assms(1) by (simp_all add: first)
    from step [OF idle, of ty' now' ev1 vm' tgt' tid'] h o
    show "extractEvents vm' now' ?s' ty' tgt' tid' ev1 =
        (None,
         ?s'\<lparr>lastTouchEvent := (if isTouch ty' then timeStamp (stampEvent now' ev1)
               else lastTouchEvent ?s')\<rparr>,
         stampEvent now' ev1)"
      by (cases ?s') simp
  qed
qed

theorem endish_idle_step_witness:
  "\<not> trackingTouchEvent initialState \<and> isEndish topMouseUp \<and>
   admitted initialState topMouseUp (stampEvent 5000 (pointerAt (Num 60) 1 0)) \<and>
   extractEvents noScroll 5000 initialState topMouseUp 0 ''.0'' (pointerAt (Num 60) 1 0) =
     (None, initialState\<lparr>startCoords := origin\<rparr>, pointerAt (Num 60) 1 0) \<and>
   extractEvents noScroll 5000 (initialState\<lparr>startCoords := origin\<rparr>) topMouseUp 0 ''.0''
       (pointerAt (Num 70) 2 0) =
     (None, initialState\<lparr>startCoords := origin\<rparr>, pointerAt (Num 70) 2 0)"
proof -
  let ?e = "extractEvents noScroll 5000 initialState topMouseUp 0 ''.0'' (pointerAt (Num 60) 1 0)"
  have h1: "\<not> trackingTouchEvent initialState" by (simp add: initialState_def)
  have h2: "isEndish topMouseUp" by simp
  have h3: "admitted initialState topMouseUp (stampEvent 5000 (pointerAt (Num 60) 1 0))"
    by (simp add: eval_defs)
  note w = endish_idle_step [OF h1 h2 h3, of noScroll 0 "''.0''"]
  have nt: "\<not> isTouch topMouseUp" by (simp add: isTouch_def touchTypes_def)
  have ev: "stampEvent 5000 (pointerAt (Num t) px py) = pointerAt (Num t) px py" for t px py
    by (simp add: stampEvent_def pointerAt_def)
  from w have a: "?e = (None, initialState\<lparr>startCoords := origin\<rparr>, pointerAt (Num 60) 1 0)"
    using nt unfolding ev by simp
  have s': "fst (snd ?e) = initialState\<lparr>startCoords := origin\<rparr>"
    by (simp add: a)
  have h4: "admitted (fst (snd ?e)) topMouseUp (stampEvent 5000 (pointerAt (Num 70) 2 0))"
    unfolding s' by (simp add: eval_defs)
  from w h2 h4 have "extractEvents noScroll 5000 (fst (snd ?e)) topMouseUp 0 ''.0''
       (pointerAt (Num 70) 2 0) =
     (None, (fst (snd ?e))\<lparr>lastTouchEvent := (if isTouch topMouseUp
          then timeStamp (stampEvent 5000 (pointerAt (Num 70) 2 0))
          else lastTouchEvent (fst (snd ?e)))\<rparr>, stampEvent 5000 (pointerAt (Num 70) 2 0))"
    by blast
  then have b: "extractEvents noScroll 5000 (initialState\<lparr>startCoords := origin\<rparr>) topMouseUp 0
       ''.0'' (pointerAt (Num 70) 2 0) =
     (None, initialState\<lparr>startCoords := origin\<rparr>, pointerAt (Num 70) 2 0)"
    using nt unfolding s' ev by simp
  from h1 h2 h3 a b show ?thesis by blast
qed

text \<open>After a press at (100,100) and a move out of bounds the machine is idle with the
  start coordinates still stored; the release then changes them.\<close>

theorem endish_idle_counterexample:
  "run initialState [call topMouseDown (pointerAt (Num 1000) 100 100),
                     call topMouseMove (pointerAt (Num 1050) 150 100)] =
     \<lparr>startCoords = \<lparr>coord_x = Num 100, coord_y = Num 100\<rparr>, startTime = Num 1000,
      lastTouchEvent = Null, lastTapTime = Num 0, trackingTouchEvent = False\<rparr> \<and>
   isEndish topMouseUp \<and>
   admitted \<lparr>startCoords = \<lparr>coord_x = Num 100, coord_y = Num 100\<rparr>, startTime = Num 1000,
      lastTouchEvent = Null, lastTapTime = Num 0, trackingTouchEvent = False\<rparr>
     topMouseUp (stampEvent 5000 (pointerAt (Num 1100) 150 100)) \<and>
   fst (snd (extractEvents noScroll 5000
      \<lparr>startCoords = \<lparr>coord_x = Num 100, coord_y = Num 100\<rparr>, startTime = Num 1000,
       lastTouchEvent = Null, lastTapTime = Num 0, trackingTouchEvent = False\<rparr>
      topMouseUp 0 ''.0'' (pointerAt (Num 1100) 150 100))) =
     \<lparr>startCoords = \<lparr>coord_x = Num 0, coord_y = Num 0\<rparr>, startTime = Num 1000,
      lastTouchEvent = Null, lastTapTime = Num 0, trackingTouchEvent = False\<rparr> \<and>
   \<lparr>startCoords = \<lparr>coord_x = Num 0, coord_y = Num 0\<rparr>, startTime = Num 1000,
      lastTouchEvent = Null, lastTapTime = Num 0, trackingTouchEvent = False\<rparr> \<noteq>
   \<lparr>startCoords = \<lparr>coord_x = Num 100, coord_y = Num 100\<rparr>, startTime = Num 1000,
      lastTouchEvent = Null, lastTapTime = Num 0, trackingTouchEvent = False\<rparr>"
  by (simp add: eval_defs)

subsection \<open>Coordinates that cannot be read\<close>


lemma num_minus_NaN [simp]: "num_minus NaN b = NaN"
  by (cases b; simp)

lemma num_plus_NaN [simp]: "num_plus NaN b = NaN" "num_plus a NaN = NaN"
  by (cases a; cases b; simp)+


lemma callExtractEvents_not_object:
  "callExtractEvents vm now s ty tgt tid None = Inl TypeError"
  by (simp add: callExtractEvents_def)



subsection \<open>Sequences of calls\<close>

lemma run_snoc: "run s (cs @ [c]) = stepState (run s cs) c"
  by (induction cs arbitrary: s) simp_all

lemma history_snoc: "history s (cs @ [c]) = history s cs @ [logEntry (run s cs) c]"
  by (induction cs arbitrary: s) simp_all

subsection \<open>The tracked start\<close>

lemma stepState_eq:
  "stepState s c =
     (let ev = stampEvent (call_now c) (call_event c);
          s1 = snd (arbitration s (call_type c) ev)
      in if admitted s (call_type c) ev
         then snd (gestureStep (call_vm c) s1 (call_type c) (call_targetID c) ev)
         else s1)"
  by (simp add: stepState_def step_def extractEvents_admitted extractEvents_rejected Let_def)

lemma stepEvent_eq:
  "stepEvent s c =
     (let ev = stampEvent (call_now c) (call_event c);
          s1 = snd (arbitration s (call_type c) ev)
      in if admitted s (call_type c) ev
         then fst (gestureStep (call_vm c) s1 (call_type c) (call_targetID c) ev)
         else None)"
  by (simp add: stepEvent_def step_def extractEvents_admitted extractEvents_rejected Let_def)

lemma step_Rejected:
  "logEntry s c = Rejected \<Longrightarrow>
     startCoords (stepState s c) = startCoords s \<and> startTime (stepState s c) = startTime s \<and>
     trackingTouchEvent (stepState s c) = trackingTouchEvent s"
  by (auto simp: logEntry_def stepState_eq snd_arbitration Let_def split: if_splits)

lemma step_AdmittedStart:
  "logEntry s c = AdmittedStart co t \<Longrightarrow>
     startCoords (stepState s c) = co \<and> startTime (stepState s c) = t \<and>
     trackingTouchEvent (stepState s c)"
  by (auto simp: logEntry_def stepState_eq snd_arbitration gestureStep_def extractedCoords_def
        Let_def split: if_splits)

lemma step_AdmittedEnd:
  "logEntry s c = AdmittedEnd \<Longrightarrow> \<not> trackingTouchEvent (stepState s c)"
  by (auto simp: logEntry_def stepState_eq snd_arbitration gestureStep_def Let_def
        split: if_splits)

lemma step_AdmittedMove:
  "logEntry s c = AdmittedMove \<Longrightarrow>
     startCoords (stepState s c) = startCoords s \<and> startTime (stepState s c) = startTime s \<and>
     (trackingTouchEvent (stepState s c) \<longrightarrow> trackingTouchEvent s)"
  by (auto simp: logEntry_def stepState_eq snd_arbitration gestureStep_def Let_def
        split: if_splits)

text \<open>
  C5. In every state reached from the initial state by a sequence of calls, if a gesture
  is being tracked then the history of the calls holds an admitted start-ish event whose
  extracted coordinates and time stamp are the stored \<open>startCoords\<close> and \<open>startTime\<close>,
  and no admitted start-ish or end-ish event comes after it: the stored start is that of
  the most recent admitted start-ish event, with no admitted end-ish event since.
\<close>

theorem tracking_reflects_last_start:
  "trackingTouchEvent (run initialState cs) \<Longrightarrow>
   \<exists>pre post. history initialState cs =
        pre @ AdmittedStart (startCoords (run initialState cs)) (startTime (run initialState cs)) # post \<and>
      (\<forall>e \<in> set post. \<not> opensGesture e \<and> \<not> closesGesture e)"
proof (induction cs rule: rev_induct)
  case Nil
  then show ?case by (simp add: initialState_def)
next
  case (snoc c cs)
  let ?s = "run initialState cs"
  let ?h = "history initialState cs"
  have tr: "trackingTouchEvent (stepState ?s c)"
    using snoc.prems by (simp add: run_snoc)
  show ?case
  proof (cases "logEntry ?s c")
    case Rejected
    from step_Rejected [OF this] tr have keep: "startCoords (stepState ?s c) = startCoords ?s"
      "startTime (stepState ?s c) = startTime ?s" "trackingTouchEvent ?s" by simp_all
    from snoc.IH [OF keep(3)] obtain pre post where
      h: "?h = pre @ AdmittedStart (startCoords ?s) (startTime ?s) # post"
      and p: "\<forall>e \<in> set post. \<not> opensGesture e \<and> \<not> closesGesture e" by blast
    have "history initialState (cs @ [c]) =
        pre @ AdmittedStart (startCoords ?s) (startTime ?s) # (post @ [Rejected])"
      using h Rejected by (simp add: history_snoc)
    moreover have "\<forall>e \<in> set (post @ [Rejected]). \<not> opensGesture e \<and> \<not> closesGesture e"
      using p by simp
    ultimately show ?thesis
      unfolding run_snoc keep by blast
  next
    case (AdmittedStart co t)
    from step_AdmittedStart [OF this]
    have cur: "startCoords (stepState ?s c) = co" "startTime (stepState ?s c) = t" by simp_all
    have "history initialState (cs @ [c]) = ?h @ AdmittedStart co t # []"
      using AdmittedStart by (simp add: history_snoc)
    moreover have "\<forall>e \<in> set ([]::LogEntry list). \<not> opensGesture e \<and> \<not> closesGesture e"
      by simp
    ultimately show ?thesis
      unfolding run_snoc cur by blast
  next
    case AdmittedEnd
    from step_AdmittedEnd [OF this] tr show ?thesis by simp
  next
    case AdmittedMove
    from step_AdmittedMove [OF this] tr have keep: "startCoords (stepState ?s c) = startCoords ?s"
      "startTime (stepState ?s c) = startTime ?s" "trackingTouchEvent ?s" by simp_all
    from snoc.IH [OF keep(3)] obtain pre post where
      h: "?h = pre @ AdmittedStart (startCoords ?s) (startTime ?s) # post"
      and p: "\<forall>e \<in> set post. \<not> opensGesture e \<and> \<not> closesGesture e" by blast
    have "history initialState (cs @ [c]) =
        pre @ AdmittedStart (startCoords ?s) (startTime ?s) # (post @ [AdmittedMove])"
      using h AdmittedMove by (simp add: history_snoc)
    moreover have "\<forall>e \<in> set (post @ [AdmittedMove]). \<not> opensGesture e \<and> \<not> closesGesture e"
      using p by simp
    ultimately show ?thesis
      unfolding run_snoc keep by blast
  qed
qed

theorem tracking_reflects_last_start_witness:
  "trackingTouchEvent
     (run initialState [call topMouseDown (pointerAt (Num 1000) 100 100),
                        call topMouseUp (pointerAt (Num 1010) 100 100),
                        call topMouseDown (pointerAt (Num 2000) 40 50),
                        call topMouseMove (pointerAt (Num 2010) 41 50)]) \<and>
   history initialState [call topMouseDown (pointerAt (Num 1000) 100 100),
                        call topMouseUp (pointerAt (Num 1010) 100 100),
                        call topMouseDown (pointerAt (Num 2000) 40 50),
                        call topMouseMove (pointerAt (Num 2010) 41 50)] =
     [AdmittedStart \<lparr>coord_x = Num 100, coord_y = Num 100\<rparr> (Num 1000), AdmittedEnd,
      AdmittedStart \<lparr>coord_x = Num 40, coord_y = Num 50\<rparr> (Num 2000), AdmittedMove] \<and>
   (\<exists>pre post.
      history initialState [call topMouseDown (pointerAt (Num 1000) 100 100),
                        call topMouseUp (pointerAt (Num 1010) 100 100),
                        call topMouseDown (pointerAt (Num 2000) 40 50),
                        call topMouseMove (pointerAt (Num 2010) 41 50)] =
        pre @ AdmittedStart \<lparr>coord_x = Num 40, coord_y = Num 50\<rparr> (Num 2000) # post \<and>
      (\<forall>e \<in> set post. \<not> opensGesture e \<and> \<not> closesGesture e))"
proof -
  let ?cs = "[call topMouseDown (pointerAt (Num 1000) 100 100),
              call topMouseUp (pointerAt (Num 1010) 100 100),
              call topMouseDown (pointerAt (Num 2000) 40 50),
              call topMouseMove (pointerAt (Num 2010) 41 50)]"
  have r: "run initialState ?cs =
      \<lparr>startCoords = \<lparr>coord_x = Num 40, coord_y = Num 50\<rparr>, startTime = Num 2000,
       lastTouchEvent = Null, lastTapTime = Num 1010, trackingTouchEvent = True\<rparr>"
    by (simp add: eval_defs)
  have t: "trackingTouchEvent (run initialState ?cs)" unfolding r by simp
  have h: "history initialState ?cs =
     [AdmittedStart \<lparr>coord_x = Num 100, coord_y = Num 100\<rparr> (Num 1000), AdmittedEnd,
      AdmittedStart \<lparr>coord_x = Num 40, coord_y = Num 50\<rparr> (Num 2000), AdmittedMove]"
    by (simp add: eval_defs)
  from tracking_reflects_last_start [OF t]
  have "\<exists>pre post. history initialState ?cs =
        pre @ AdmittedStart (startCoords (run initialState ?cs)) (startTime (run initialState ?cs)) # post \<and>
      (\<forall>e \<in> set post. \<not> opensGesture e \<and> \<not> closesGesture e)" .
  then have "\<exists>pre post. history initialState ?cs =
        pre @ AdmittedStart \<lparr>coord_x = Num 40, coord_y = Num 50\<rparr> (Num 2000) # post \<and>
      (\<forall>e \<in> set post. \<not> opensGesture e \<and> \<not> closesGesture e)"
    unfolding r by simp
  with t h show ?thesis by blast
qed

subsection \<open>Spacing of taps\<close>

text \<open>
  C8. Two taps are to be at least \<open>tapDelay\<close> (200) apart, as the comment on the
  constant says. The arbitration compares with \<open>lastTapTime\<close> for touch-origin events
  only: two mouse clicks 20 ms apart give two taps, at times 1010 and 1030.
\<close>

theorem mouse_taps_within_tapDelay:
  "map (timeStamp \<circ> nativeEvent \<circ> snd)
     (emitted initialState [call topMouseDown (pointerAt (Num 1000) 5 5),
                            call topMouseUp (pointerAt (Num 1010) 5 5),
                            call topMouseDown (pointerAt (Num 1020) 5 5),
                            call topMouseUp (pointerAt (Num 1030) 5 5)]) =
     [Num 1010, Num 1030] \<and>
   (1030::real) - 1010 < tapDelay"
  by (simp add: eval_defs)

end
